theory Spec2Isabelle
  imports Main
begin

section \<open>JavaScript values and arguments\<close>

text \<open>
  Records, stage specifications and engine results are opaque JavaScript values. A
  function argument is either a function (carrying what it does) or a plain value; the
  executor only ever asks for its \<open>typeof\<close>, its truthiness and whether it is an array.
  An object is an association list with distinct keys.
\<close>

datatype jsval =
    JUndefined
  | JNull
  | JBool bool
  | JNum int
  | JStr string
  | JArr "jsval list"
  | JObj "(string \<times> jsval) list"

datatype 'f arg = Fn 'f | Val jsval

datatype jstype = TUndefined | TObject | TBoolean | TNumber | TString | TFunction

fun typeof_val :: "jsval \<Rightarrow> jstype" where
  "typeof_val JUndefined = TUndefined"
| "typeof_val JNull = TObject"
| "typeof_val (JBool b) = TBoolean"
| "typeof_val (JNum n) = TNumber"
| "typeof_val (JStr s) = TString"
| "typeof_val (JArr xs) = TObject"
| "typeof_val (JObj kvs) = TObject"

fun typeof :: "'f arg \<Rightarrow> jstype" where
  "typeof (Fn f) = TFunction"
| "typeof (Val v) = typeof_val v"

fun truthy_val :: "jsval \<Rightarrow> bool" where
  "truthy_val JUndefined = False"
| "truthy_val JNull = False"
| "truthy_val (JBool b) = b"
| "truthy_val (JNum n) = (n \<noteq> 0)"
| "truthy_val (JStr s) = (s \<noteq> [])"
| "truthy_val (JArr xs) = True"
| "truthy_val (JObj kvs) = True"

fun truthy :: "'f arg \<Rightarrow> bool" where
  "truthy (Fn f) = True"
| "truthy (Val v) = truthy_val v"

datatype err = Error string | TypeError string

section \<open>The engine, the events of a session and the module's state\<close>

text \<open>
  The MongoDB driver is external. Each of its asynchronous operations answers through a
  callback, with an error or with a result; the model takes the answers as parameters.
  The answer to \<open>aggregate\<close> may depend on the position of the call in the session, the
  answer to \<open>dropDatabase\<close> on how many times the database was dropped before.
\<close>

record engine =
  on_connect :: "string \<Rightarrow> err option"
  on_insert :: "jsval list \<Rightarrow> err option"
  on_aggregate :: "nat \<Rightarrow> jsval list \<Rightarrow> err + jsval"
  on_dropDatabase :: "nat \<Rightarrow> err option"

datatype event =
    Connect string
  | Insert "jsval list"
  | BeforeEach "jsval list" nat
  | Aggregate "jsval list"
  | AfterEach jsval nat
  | DropDatabase
  | Close
  | Callback "err option"

record mongoParams =
  host :: string
  port :: nat
  username :: "string option"
  password :: "string option"

text \<open>
  \<open>my\<close> and \<open>doSkipStages\<close> are assigned without a declaration that binds them (\<open>my = {}\<close>
  has no \<open>var\<close>, and the variable declared in \<open>debug\<close> is spelled \<open>doSkipStegaes\<close>), so
  both are globals: they outlive a call and are shared by every debugger the factory has
  made. Of \<open>my\<close> the executor reads \<open>mongoParams\<close> and \<open>debugDatabaseName\<close>. The trace
  lists what the calls under study did to the engine, to the hooks and to the completion
  callback, in the order it happened.
\<close>

record sys =
  mongoParams :: mongoParams
  debugDatabaseName :: "string option"
  doSkipStages :: bool
  trace :: "event list"

text \<open>
  The factory. It replaces \<open>my\<close>, so the name kept there is gone, and copies the keys it
  is given over the defaults. A key is absent or holds a value of its documented type.
\<close>

record givenParams =
  given_host :: "string option"
  given_port :: "nat option"
  given_username :: "string option"
  given_password :: "string option"

definition defaultMongoParams :: mongoParams where
  "defaultMongoParams =
     \<lparr>host = ''localhost'', port = 27017, username = None, password = None\<rparr>"

definition extend :: "mongoParams \<Rightarrow> givenParams \<Rightarrow> mongoParams" where
  "extend d g =
     \<lparr>host = (case given_host g of Some h \<Rightarrow> h | None \<Rightarrow> host d),
      port = (case given_port g of Some p \<Rightarrow> p | None \<Rightarrow> port d),
      username = (case given_username g of Some u \<Rightarrow> Some u | None \<Rightarrow> username d),
      password = (case given_password g of Some p \<Rightarrow> Some p | None \<Rightarrow> password d)\<rparr>"

definition mongoAggregationDebugger :: "givenParams \<Rightarrow> sys \<Rightarrow> sys" where
  "mongoAggregationDebugger g y =
     y\<lparr>mongoParams := extend defaultMongoParams g, debugDatabaseName := None\<rparr>"

record env =
  pid :: nat
  now :: nat

type_synonym 's world = "sys \<times> 's"
type_synonym 's callback = "err option \<Rightarrow> 's \<Rightarrow> 's"
type_synonym 's beforeHook = "jsval list \<Rightarrow> nat \<Rightarrow> 's \<Rightarrow> 's"
type_synonym 's afterHook = "jsval \<Rightarrow> nat \<Rightarrow> 's \<Rightarrow> 's"

text \<open>
  A hook or a callback is a function on the state of whoever supplied it, and it returns:
  what a hook that throws or never returns does to a session is not described here.

  A call of \<open>debug\<close> ends in one of three ways, each leaving a state behind: it has
  called the callback and returned, it has thrown, or it has called
  \<open>MongoClient.connect\<close> and returned. In the last case the callback it handed to
  \<open>connect\<close> has not run: it runs in a later turn, when the driver answers.
\<close>

datatype 'w completion =
    Returned 'w
  | Threw err 'w
  | Connecting string "err option \<Rightarrow> 'w \<Rightarrow> 'w" 'w

fun world_of :: "'w completion \<Rightarrow> 'w" where
  "world_of (Returned w) = w"
| "world_of (Threw e w) = w"
| "world_of (Connecting url cb w) = w"

definition emit :: "event \<Rightarrow> 's world \<Rightarrow> 's world" where
  "emit ev w = ((fst w)\<lparr>trace := trace (fst w) @ [ev]\<rparr>, snd w)"

section \<open>Naming the database and building the connection url\<close>

text \<open>Decimal rendering of a non-negative integer, as string concatenation does it.\<close>

definition digit :: "nat \<Rightarrow> char" where
  "digit d = ''0123456789'' ! d"

function show_nat :: "nat \<Rightarrow> string" where
  "show_nat n = (if n < 10 then [digit n] else show_nat (n div 10) @ [digit (n mod 10)])"
  by pat_completeness auto
termination
  by (relation "measure id") auto

declare show_nat.simps [simp del]

definition generateDatabaseName :: "env \<Rightarrow> string" where
  "generateDatabaseName env =
     ''mongo_aggregation_debugger_'' @ show_nat (pid env) @ ''_'' @ show_nat (now env)"

definition present :: "string option \<Rightarrow> bool" where
  "present s = (case s of None \<Rightarrow> False | Some t \<Rightarrow> t \<noteq> [])"

text \<open>
  \<open>my.mongoParams\<close> is the object \<open>my.defaultMongoParams\<close> itself (\<open>_.extend\<close> returns its
  first argument), so the assignment that restores a missing host copies the host onto
  itself and changes nothing. The name is generated on the first call and kept in
  \<open>my.debugDatabaseName\<close> for every later call.
\<close>

definition buildConnectionUrl :: "env \<Rightarrow> sys \<Rightarrow> string \<times> sys" where
  "buildConnectionUrl env y =
     (let P = mongoParams y;
          url0 = ''mongodb://'';
          url1 = (if present (username P) \<and> present (password P)
                  then url0 @ the (username P) @ '':'' @ the (password P) @ ''@''
                  else url0);
          url2 = url1 @ host P;
          url3 = (if port P \<noteq> 0 then url2 @ '':'' @ show_nat (port P) else url2);
          name = (if present (debugDatabaseName y) then the (debugDatabaseName y)
                  else generateDatabaseName env)
      in (url3 @ ''/'' @ name, y\<lparr>debugDatabaseName := Some name\<rparr>))"

text \<open>
  \<open>getMongoConnection\<close> builds the url and calls \<open>MongoClient.connect\<close> with it and the
  callback. Nothing more happens in this turn.
\<close>

definition getMongoConnection ::
  "env \<Rightarrow> (err option \<Rightarrow> 's world \<Rightarrow> 's world) \<Rightarrow> 's world \<Rightarrow> 's world completion" where
  "getMongoConnection env cb w =
     (let (url, y) = buildConnectionUrl env (fst w)
      in Connecting url cb (emit (Connect url) (y, snd w)))"

section \<open>Partitioning the pipeline\<close>

text \<open>
  The loop of \<open>partitionQuery\<close>: \<open>forEach\<close> visits the stages with their index, and every
  part after the first is a copy of the part before it with the stage pushed onto it.
  The pipeline is a dense array, so one part has been pushed for every index below the
  current one and \<open>queryParts[index - 1]\<close> is always there (lemma
  \<open>partition_loop_prefixes\<close> below).
\<close>

fun partition_loop :: "jsval list \<Rightarrow> nat \<Rightarrow> jsval list list \<Rightarrow> jsval list list" where
  "partition_loop [] index queryParts = queryParts"
| "partition_loop (queryPart # rest) index queryParts =
     (if index = 0 then partition_loop rest (Suc index) (queryParts @ [[queryPart]])
      else partition_loop rest (Suc index)
             (queryParts @ [(queryParts ! (index - 1)) @ [queryPart]]))"

definition partitionQuery :: "jsval list \<Rightarrow> bool \<Rightarrow> jsval list list" where
  "partitionQuery q skipStages =
     (if skipStages then [q] else partition_loop q 0 [])"

section \<open>The staged executor\<close>

text \<open>
  \<open>async.series\<close> runs its tasks in order, each after the one before it called back;
  the first error ends the series, and the tasks after it never start.
\<close>

fun series :: "('w \<Rightarrow> err option \<times> 'w) list \<Rightarrow> 'w \<Rightarrow> err option \<times> 'w" where
  "series [] w = (None, w)"
| "series (task # tasks) w =
     (case task w of
        (Some e, w') \<Rightarrow> (Some e, w')
      | (None, w') \<Rightarrow> series tasks w')"

definition dropped :: "event list \<Rightarrow> nat" where
  "dropped evs = length (filter (\<lambda>ev. ev = DropDatabase) evs)"

definition insert_task :: "engine \<Rightarrow> jsval list \<Rightarrow> 's world \<Rightarrow> err option \<times> 's world" where
  "insert_task E docs w = (on_insert E docs, emit (Insert docs) w)"

definition stage_task ::
  "engine \<Rightarrow> 's beforeHook \<Rightarrow> 's afterHook \<Rightarrow> jsval list \<Rightarrow> nat \<Rightarrow> 's world \<Rightarrow> err option \<times> 's world" where
  "stage_task E beforeEach afterEach queryPart index w =
     (let w1 = emit (BeforeEach queryPart index) w;
          w2 = (fst w1, beforeEach queryPart index (snd w1));
          w3 = emit (Aggregate queryPart) w2
      in case on_aggregate E index queryPart of
           Inl e \<Rightarrow> (Some e, w3)
         | Inr results \<Rightarrow>
             (let w4 = emit (AfterEach results index) w3
              in (None, (fst w4, afterEach results index (snd w4)))))"

definition dropDatabase_task :: "engine \<Rightarrow> 's world \<Rightarrow> err option \<times> 's world" where
  "dropDatabase_task E w =
     (on_dropDatabase E (dropped (trace (fst w))), emit DropDatabase w)"

definition fire :: "'s callback \<Rightarrow> err option \<Rightarrow> 's world \<Rightarrow> 's world" where
  "fire cb e w = (let w1 = emit (Callback e) w in (fst w1, cb e (snd w1)))"

text \<open>
  The callback of \<open>async.series\<close>. The branch taken on an error starts
  \<open>db.dropDatabase\<close> and does not return, so \<open>db.close()\<close> and \<open>cb()\<close> below it run in
  the same turn; the callback of \<open>dropDatabase\<close> runs when the engine has answered, closes
  again and calls \<open>cb(anotherErr || err)\<close>.
\<close>

definition series_done :: "engine \<Rightarrow> 's callback \<Rightarrow> err option \<times> 's world \<Rightarrow> 's world" where
  "series_done E cb r =
     (case r of (err, w) \<Rightarrow>
        (case err of
           None \<Rightarrow> fire cb None (emit Close w)
         | Some e \<Rightarrow>
             (let anotherErr = on_dropDatabase E (dropped (trace (fst w)));
                  w1 = emit DropDatabase w;
                  w2 = fire cb None (emit Close w1);
                  w3 = emit Close w2
              in fire cb (case anotherErr of Some a \<Rightarrow> Some a | None \<Rightarrow> Some e) w3)))"

text \<open>
  The callback handed to \<open>getMongoConnection\<close>. It runs when the connection has
  answered and reads the global \<open>doSkipStages\<close> at that moment, not when \<open>debug\<close>
  assigned it.
\<close>

definition connected ::
  "engine \<Rightarrow> jsval list \<Rightarrow> jsval list \<Rightarrow> 's beforeHook \<Rightarrow> 's afterHook \<Rightarrow> 's callback
     \<Rightarrow> err option \<Rightarrow> 's world \<Rightarrow> 's world" where
  "connected E docs q beforeEach afterEach cb err w =
     (case err of
        Some e \<Rightarrow> fire cb (Some e) w
      | None \<Rightarrow>
          (let queryParts = partitionQuery q (doSkipStages (fst w));
               tasks = [insert_task E docs]
                 @ map (\<lambda>(index, queryPart). stage_task E beforeEach afterEach queryPart index)
                     (enumerate 0 queryParts)
                 @ [dropDatabase_task E]
           in series_done E cb (series tasks w)))"

fun check_data :: "'f arg \<Rightarrow> jsval list option" where
  "check_data (Val (JArr xs)) = Some xs"
| "check_data (Val v) = (if truthy_val v \<and> typeof_val v = TObject then Some [v] else None)"
| "check_data (Fn f) = None"

fun check_query :: "'f arg \<Rightarrow> jsval list option" where
  "check_query (Val (JArr xs)) = Some xs"
| "check_query a = None"

fun hook_or_noop :: "('a \<Rightarrow> nat \<Rightarrow> 's \<Rightarrow> 's) arg \<Rightarrow> 'a \<Rightarrow> nat \<Rightarrow> 's \<Rightarrow> 's" where
  "hook_or_noop (Fn f) = f"
| "hook_or_noop (Val v) = (\<lambda>x index s. s)"

text \<open>\<open>debug\<close> from the check of the callback on, \<open>cb\<close> and \<open>doSkipStages\<close> being settled.\<close>

definition debug_checked ::
  "env \<Rightarrow> engine \<Rightarrow> unit arg \<Rightarrow> unit arg \<Rightarrow> 's beforeHook arg \<Rightarrow> 's afterHook arg
     \<Rightarrow> 's callback arg \<Rightarrow> 's world \<Rightarrow> 's world completion" where
  "debug_checked env E data q beforeEach afterEach cb w =
     (case cb of
        Val v \<Rightarrow> Threw (Error ''Invalid callback'') w
      | Fn f \<Rightarrow>
          (case check_data data of
             None \<Rightarrow> Returned (fire f (Some (Error ''Invalid `data`'')) w)
           | Some docs \<Rightarrow>
               (case check_query q of
                  None \<Rightarrow> Returned (fire f (Some (Error ''Invalid `query`'')) w)
                | Some stgs \<Rightarrow>
                    getMongoConnection env
                      (connected E docs stgs (hook_or_noop beforeEach) (hook_or_noop afterEach) f)
                      w)))"

definition set_doSkipStages :: "bool \<Rightarrow> 's world \<Rightarrow> 's world" where
  "set_doSkipStages b w = ((fst w)\<lparr>doSkipStages := b\<rparr>, snd w)"

definition debug ::
  "env \<Rightarrow> engine \<Rightarrow> unit arg \<Rightarrow> unit arg \<Rightarrow> 's beforeHook arg \<Rightarrow> 's afterHook arg
     \<Rightarrow> 's callback arg \<Rightarrow> 's callback arg \<Rightarrow> 's world \<Rightarrow> 's world completion" where
  "debug env E data q beforeEach afterEach skipStages cb w =
     (if typeof skipStages = TFunction \<and> typeof cb = TUndefined then
        debug_checked env E data q beforeEach afterEach skipStages (set_doSkipStages False w)
      else if typeof skipStages = TBoolean then
        debug_checked env E data q beforeEach afterEach cb
          (set_doSkipStages (truthy skipStages) w)
      else
        (case cb of
           Fn f \<Rightarrow> Returned (fire f (Some (Error ''Invalid `skipStages` value'')) w)
         | Val v \<Rightarrow> Threw (TypeError ''cb is not a function'') w))"

text \<open>
  The driver answers. By then other calls may have run: calls of the entry points assign
  \<open>doSkipStages\<close> and may put a name into \<open>my\<close>, calls of the factory replace \<open>my\<close>. The
  callback of \<open>connect\<close> finds the globals as those calls left them, here the ones of
  \<open>g\<close>, and its own variables as they were. From there on the session reads no global
  any more: what other calls do later can only fall between its steps, and the trace
  lists the steps of the session itself. The state of the caller is taken as the session
  left it.
\<close>

definition meanwhile :: "sys \<Rightarrow> sys \<Rightarrow> sys" where
  "meanwhile g y =
     y\<lparr>mongoParams := mongoParams g, debugDatabaseName := debugDatabaseName g,
       doSkipStages := doSkipStages g\<rparr>"

fun answered :: "engine \<Rightarrow> sys \<Rightarrow> 's world completion \<Rightarrow> 's world" where
  "answered E g (Connecting url cb w) = cb (on_connect E url) (meanwhile g (fst w), snd w)"
| "answered E g (Returned w) = w"
| "answered E g (Threw e w) = w"

text \<open>A session with no other call between its start and the answer of its connection.\<close>

definition undisturbed :: "engine \<Rightarrow> 's world completion \<Rightarrow> 's world" where
  "undisturbed E c = answered E (fst (world_of c)) c"

definition events_since :: "'s world \<Rightarrow> 't world \<Rightarrow> event list" where
  "events_since w w' = drop (length (trace (fst w))) (trace (fst w'))"

section \<open>The public entry points\<close>

text \<open>
  Each entry point keeps its own variables (\<open>output\<close>, the console) beside the caller's
  state and hands \<open>debug\<close> hooks and a callback that work on both. What is written to
  the console is recorded as the values it is rendered from.
\<close>

fun callback_or_noop :: "(err option \<Rightarrow> 'o \<Rightarrow> 'u \<Rightarrow> 'u) arg \<Rightarrow> err option \<Rightarrow> 'o \<Rightarrow> 'u \<Rightarrow> 'u" where
  "callback_or_noop (Fn f) = f"
| "callback_or_noop (Val v) = (\<lambda>e out u. u)"

definition enter :: "'l \<Rightarrow> 'u world \<Rightarrow> ('l \<times> 'u) world" where
  "enter l w = (fst w, (l, snd w))"

datatype entry = Entry (entry_query: "jsval list option") (entry_results: "jsval option")

text \<open>
  Reading and writing a JavaScript array by index: a read past the end or of a hole
  gives \<open>undefined\<close>, a write past the end extends the array with holes.
\<close>

definition js_get :: "'a option list \<Rightarrow> nat \<Rightarrow> 'a option" where
  "js_get xs i = (if i < length xs then xs ! i else None)"

definition js_put :: "'a option list \<Rightarrow> nat \<Rightarrow> 'a \<Rightarrow> 'a option list" where
  "js_put xs i v =
     (if i < length xs then xs[i := Some v]
      else xs @ replicate (i - length xs) None @ [Some v])"

definition stages_beforeEach :: "(entry option list \<times> 'u) beforeHook" where
  "stages_beforeEach queryPart index s = (fst s @ [Some (Entry (Some queryPart) None)], snd s)"

definition stages_afterEach :: "(entry option list \<times> 'u) afterHook" where
  "stages_afterEach results index s =
     (let e = (case js_get (fst s) index of Some e \<Rightarrow> e | None \<Rightarrow> Entry None None)
      in (js_put (fst s) index (Entry (entry_query e) (Some results)), snd s))"

definition stages_done ::
  "(err option \<Rightarrow> entry option list option \<Rightarrow> 'u \<Rightarrow> 'u) \<Rightarrow> (entry option list \<times> 'u) callback" where
  "stages_done cb err s =
     (case err of
        Some e \<Rightarrow> (fst s, cb (Some e) None (snd s))
      | None \<Rightarrow> (fst s, cb None (Some (fst s)) (snd s)))"

definition stages ::
  "env \<Rightarrow> engine \<Rightarrow> unit arg \<Rightarrow> unit arg
     \<Rightarrow> (err option \<Rightarrow> entry option list option \<Rightarrow> 'u \<Rightarrow> 'u) arg
     \<Rightarrow> 'u world \<Rightarrow> (entry option list \<times> 'u) world completion" where
  "stages env E data q cb w =
     debug env E data q (Fn stages_beforeEach) (Fn stages_afterEach)
       (Fn (stages_done (callback_or_noop cb))) (Val JUndefined) (enter [] w)"

definition exec_afterEach :: "(jsval \<times> 'u) afterHook" where
  "exec_afterEach results index s = (results, snd s)"

definition exec_done :: "(err option \<Rightarrow> jsval \<Rightarrow> 'u \<Rightarrow> 'u) \<Rightarrow> (jsval \<times> 'u) callback" where
  "exec_done cb err s =
     (case err of
        Some e \<Rightarrow> (fst s, cb (Some e) JUndefined (snd s))
      | None \<Rightarrow> (fst s, cb None (fst s) (snd s)))"

definition exec ::
  "env \<Rightarrow> engine \<Rightarrow> unit arg \<Rightarrow> unit arg
     \<Rightarrow> (err option \<Rightarrow> jsval \<Rightarrow> 'u \<Rightarrow> 'u) arg
     \<Rightarrow> 'u world \<Rightarrow> (jsval \<times> 'u) world completion" where
  "exec env E data q cb w =
     debug env E data q (Val JNull) (Fn exec_afterEach) (Val (JBool True))
       (Fn (exec_done (callback_or_noop cb))) (enter JUndefined w)"

datatype line =
    LogStart
  | LogStage nat jsval
  | LogQuery "jsval list"
  | LogResultsHeader
  | LogResults jsval
  | LogBlank
  | LogEnd

fun showQuery :: "'f arg \<Rightarrow> bool" where
  "showQuery (Val (JObj kvs)) =
     (case map_of kvs ''showQuery'' of Some v \<Rightarrow> truthy_val v | None \<Rightarrow> False)"
| "showQuery a = False"

text \<open>
  The label of a stage is rendered from the last stage of the part
  (\<open>queryPart[queryPart.length - 1]\<close>, \<open>undefined\<close> for an empty part).
\<close>

definition log_beforeEach :: "bool \<Rightarrow> (line list \<times> 'u) beforeHook" where
  "log_beforeEach sq queryPart index s =
     (fst s @ [LogStage (index + 1) (if queryPart = [] then JUndefined else last queryPart)]
        @ (if sq then [LogQuery queryPart, LogResultsHeader] else []),
      snd s)"

definition log_afterEach :: "(line list \<times> 'u) afterHook" where
  "log_afterEach results index s = (fst s @ [LogResults results, LogBlank], snd s)"

definition log_done :: "(err option \<Rightarrow> unit \<Rightarrow> 'u \<Rightarrow> 'u) \<Rightarrow> (line list \<times> 'u) callback" where
  "log_done cb err s =
     (case err of
        Some e \<Rightarrow> (fst s, cb (Some e) () (snd s))
      | None \<Rightarrow> (fst s @ [LogEnd], cb None () (snd s)))"

definition log ::
  "env \<Rightarrow> engine \<Rightarrow> unit arg \<Rightarrow> unit arg
     \<Rightarrow> (err option \<Rightarrow> unit \<Rightarrow> 'u \<Rightarrow> 'u) arg \<Rightarrow> (err option \<Rightarrow> unit \<Rightarrow> 'u \<Rightarrow> 'u) arg
     \<Rightarrow> 'u world \<Rightarrow> (line list \<times> 'u) world completion" where
  "log env E data q options cb w =
     (let cb1 = (if typeof options = TFunction \<and> typeof cb = TUndefined then options else cb)
      in debug env E data q (Fn (log_beforeEach (showQuery options))) (Fn log_afterEach)
           (Fn (log_done (callback_or_noop cb1))) (Val JUndefined) (enter [LogStart] w))"

section \<open>What a session leaves in the trace\<close>

text \<open>
  The functions of this section are not part of the program. They describe the outcome of
  the stage tasks and the events of a whole session as plain recursive functions of the
  engine's answers and of the mode flag \<open>sk\<close> the session finds when its connection
  answers; the lemmas below show that the executor produces exactly them.
\<close>

fun stage_err :: "engine \<Rightarrow> (nat \<times> jsval list) list \<Rightarrow> err option" where
  "stage_err E [] = None"
| "stage_err E ((i, p) # ips) =
     (case on_aggregate E i p of Inl e \<Rightarrow> Some e | Inr r \<Rightarrow> stage_err E ips)"

fun stage_events :: "engine \<Rightarrow> (nat \<times> jsval list) list \<Rightarrow> event list" where
  "stage_events E [] = []"
| "stage_events E ((i, p) # ips) =
     (case on_aggregate E i p of
        Inl e \<Rightarrow> [BeforeEach p i, Aggregate p]
      | Inr r \<Rightarrow> [BeforeEach p i, Aggregate p, AfterEach r i] @ stage_events E ips)"

fun stage_obs ::
  "engine \<Rightarrow> 's beforeHook \<Rightarrow> 's afterHook \<Rightarrow> (nat \<times> jsval list) list \<Rightarrow> 's \<Rightarrow> 's" where
  "stage_obs E b a [] s = s"
| "stage_obs E b a ((i, p) # ips) s =
     (case on_aggregate E i p of
        Inl e \<Rightarrow> b p i s
      | Inr r \<Rightarrow> stage_obs E b a ips (a r i (b p i s)))"

fun stage_event :: "event \<Rightarrow> bool" where
  "stage_event (BeforeEach p i) = True"
| "stage_event (Aggregate p) = True"
| "stage_event (AfterEach r i) = True"
| "stage_event ev = False"

fun errors_of :: "event list \<Rightarrow> err list" where
  "errors_of [] = []"
| "errors_of (Callback (Some e) # evs) = e # errors_of evs"
| "errors_of (ev # evs) = errors_of evs"

fun is_callback :: "event \<Rightarrow> bool" where
  "is_callback (Callback e) = True"
| "is_callback ev = False"

definition cleanup_events :: "engine \<Rightarrow> err \<Rightarrow> nat \<Rightarrow> event list" where
  "cleanup_events E e n =
     [DropDatabase, Close, Callback None, Close,
      Callback (case on_dropDatabase E n of Some a \<Rightarrow> Some a | None \<Rightarrow> Some e)]"

definition tail_events :: "engine \<Rightarrow> jsval list \<Rightarrow> (nat \<times> jsval list) list \<Rightarrow> nat \<Rightarrow> event list" where
  "tail_events E docs ips n =
     (case on_insert E docs of
        Some e \<Rightarrow> Insert docs # cleanup_events E e n
      | None \<Rightarrow>
          (case stage_err E ips of
             Some e \<Rightarrow> Insert docs # stage_events E ips @ cleanup_events E e n
           | None \<Rightarrow>
               (case on_dropDatabase E n of
                  None \<Rightarrow> Insert docs # stage_events E ips @ [DropDatabase, Close, Callback None]
                | Some e \<Rightarrow>
                    Insert docs # stage_events E ips @ DropDatabase # cleanup_events E e (Suc n))))"

definition session_events ::
  "env \<Rightarrow> engine \<Rightarrow> unit arg \<Rightarrow> unit arg \<Rightarrow> bool \<Rightarrow> sys \<Rightarrow> event list" where
  "session_events env E data q sk y =
     (case check_data data of
        None \<Rightarrow> [Callback (Some (Error ''Invalid `data`''))]
      | Some docs \<Rightarrow>
          (case check_query q of
             None \<Rightarrow> [Callback (Some (Error ''Invalid `query`''))]
           | Some stgs \<Rightarrow>
               (let url = fst (buildConnectionUrl env y)
                in case on_connect E url of
                     Some e \<Rightarrow> [Connect url, Callback (Some e)]
                   | None \<Rightarrow>
                       Connect url
                         # tail_events E docs (enumerate 0 (partitionQuery stgs sk))
                             (dropped (trace y)))))"

fun is_aggregate :: "event \<Rightarrow> bool" where
  "is_aggregate (Aggregate p) = True"
| "is_aggregate ev = False"

section \<open>Examples\<close>

definition env0 :: env where
  "env0 = \<lparr>pid = 7, now = 1000\<rparr>"

definition env1 :: env where
  "env1 = \<lparr>pid = 7, now = 2000\<rparr>"

definition sys0 :: sys where
  "sys0 = \<lparr>mongoParams = defaultMongoParams, debugDatabaseName = None, doSkipStages = False,
     trace = []\<rparr>"

definition sys1 :: sys where
  "sys1 = sys0\<lparr>debugDatabaseName := Some ''mongo_aggregation_debugger_7_1000''\<rparr>"

definition data0 :: "unit arg" where
  "data0 = Val (JArr [JObj [(''n'', JNum 1)], JObj [(''n'', JNum 2)]])"

definition stage_match :: jsval where
  "stage_match = JObj [(''$match'', JObj [(''n'', JNum 1)])]"

definition stage_limit :: jsval where
  "stage_limit = JObj [(''$limit'', JNum 1)]"

definition query0 :: "unit arg" where
  "query0 = Val (JArr [stage_match, stage_limit])"

definition answer :: "nat \<Rightarrow> jsval" where
  "answer i = JArr [JNum (int i)]"

definition engine_ok :: engine where
  "engine_ok = \<lparr>on_connect = (\<lambda>url. None), on_insert = (\<lambda>docs. None),
     on_aggregate = (\<lambda>i p. Inr (answer i)), on_dropDatabase = (\<lambda>n. None)\<rparr>"

definition engine_insert_fails :: engine where
  "engine_insert_fails = engine_ok\<lparr>on_insert := (\<lambda>docs. Some (Error ''insert failed''))\<rparr>"

definition engine_drop_fails :: engine where
  "engine_drop_fails = engine_ok\<lparr>on_dropDatabase := (\<lambda>n. Some (Error ''drop failed''))\<rparr>"

definition engine_insert_and_drop_fail :: engine where
  "engine_insert_and_drop_fail =
     engine_insert_fails\<lparr>on_dropDatabase := (\<lambda>n. Some (Error ''drop failed''))\<rparr>"

definition engine_second_stage_fails :: engine where
  "engine_second_stage_fails =
     engine_drop_fails\<lparr>on_aggregate :=
       (\<lambda>i p. if i = 1 then Inl (Error ''stage failed'') else Inr (answer i))\<rparr>"

definition ignore :: "'s callback" where
  "ignore e s = s"

definition record_before :: "event list beforeHook" where
  "record_before queryPart index s = s @ [BeforeEach queryPart index]"

definition record_after :: "event list afterHook" where
  "record_after results index s = s @ [AfterEach results index]"

definition count_delivery :: "err option \<Rightarrow> 'o \<Rightarrow> nat \<Rightarrow> nat" where
  "count_delivery e out n = Suc n"

definition record_delivery :: "err option \<Rightarrow> 'o \<Rightarrow> (err option \<times> 'o) list \<Rightarrow> (err option \<times> 'o) list" where
  "record_delivery e out u = u @ [(e, out)]"

text \<open>
  Three calls made on a fresh debugger, and what a call of another entry point leaves in
  the globals when it is made before the connection of the first has answered.
\<close>

definition stages_call ::
  "(entry option list \<times> (err option \<times> entry option list option) list) world completion" where
  "stages_call = stages env0 engine_ok data0 query0 (Fn record_delivery) (sys0, [])"

definition exec_call :: "(jsval \<times> (err option \<times> jsval) list) world completion" where
  "exec_call = exec env0 engine_ok data0 query0 (Fn record_delivery) (sys0, [])"

definition debug_call :: "event list world completion" where
  "debug_call =
     debug env0 engine_ok data0 query0 (Fn record_before) (Fn record_after) (Val (JBool False))
       (Fn ignore) (sys0, [])"

definition after_exec_call :: "sys \<Rightarrow> sys" where
  "after_exec_call y =
     fst (world_of (exec env1 engine_ok data0 query0 (Val JUndefined) (y, ())))"

definition after_stages_call :: "sys \<Rightarrow> sys" where
  "after_stages_call y =
     fst (world_of (stages env1 engine_ok data0 query0 (Val JUndefined) (y, ())))"

text \<open>
  Two sessions of one debugger, one after the other: the second is started, at a later
  time, in the state that the first has left.
\<close>

definition first_session :: "unit world" where
  "first_session =
     undisturbed engine_ok
       (debug env0 engine_ok data0 query0 (Val JUndefined) (Val JUndefined) (Fn ignore)
          (Val JUndefined) (sys0, ()))"

definition second_session :: "unit world" where
  "second_session =
     undisturbed engine_ok
       (debug env1 engine_ok data0 query0 (Val JUndefined) (Val JUndefined) (Fn ignore)
          (Val JUndefined) first_session)"

section \<open>Lemmas about the executor\<close>

lemma emit_pair [simp]: "emit ev (y, s) = (y\<lparr>trace := trace y @ [ev]\<rparr>, s)"
  by (simp add: emit_def)

lemma fire_pair [simp]: "fire cb e (y, s) = (y\<lparr>trace := trace y @ [Callback e]\<rparr>, cb e s)"
  by (simp add: fire_def)

lemma series_append:
  "series (ts @ us) w = (case series ts w of (Some e, w') \<Rightarrow> (Some e, w') | (None, w') \<Rightarrow> series us w')"
  by (induction ts arbitrary: w) (auto split: prod.splits option.splits)

lemma series_stages:
  "series (map (\<lambda>(index, queryPart). stage_task E b a queryPart index) ips) (y, s) =
     (stage_err E ips, (y\<lparr>trace := trace y @ stage_events E ips\<rparr>, stage_obs E b a ips s))"
proof (induction ips arbitrary: y s)
  case Nil
  show ?case by simp
next
  case (Cons ip ips)
  obtain i p where ip: "ip = (i, p)" by (cases ip)
  show ?case
  proof (cases "on_aggregate E i p")
    case (Inl e)
    then have "stage_task E b a p i (y, s) =
        (Some e, (y\<lparr>trace := trace y @ [BeforeEach p i, Aggregate p]\<rparr>, b p i s))"
      by (simp add: stage_task_def)
    then show ?thesis using Inl by (simp add: ip)
  next
    case (Inr r)
    then have "stage_task E b a p i (y, s) =
        (None, (y\<lparr>trace := trace y @ [BeforeEach p i, Aggregate p, AfterEach r i]\<rparr>,
                a r i (b p i s)))"
      by (simp add: stage_task_def)
    then show ?thesis using Inr by (simp add: ip Cons.IH)
  qed
qed

lemma partition_loop_prefixes:
  "length pre = k \<Longrightarrow>
     partition_loop rest k (map (\<lambda>j. take (Suc j) pre) [0..<k]) =
       map (\<lambda>j. take (Suc j) (pre @ rest)) [0..<k + length rest]"
proof (induction rest arbitrary: pre k)
  case Nil
  then show ?case by simp
next
  case (Cons x xs)
  let ?acc = "map (\<lambda>j. take (Suc j) pre) [0..<k]"
  let ?acc' = "map (\<lambda>j. take (Suc j) (pre @ [x])) [0..<Suc k]"
  have grown: "?acc @ [pre @ [x]] = ?acc'"
    using Cons.prems by simp
  have "partition_loop (x # xs) k ?acc = partition_loop xs (Suc k) (?acc @ [pre @ [x]])"
  proof (cases "k = 0")
    case True
    then show ?thesis using Cons.prems by simp
  next
    case False
    then have "?acc ! (k - 1) = pre"
      using Cons.prems by simp
    then have "partition_loop (x # xs) k ?acc =
        partition_loop xs (Suc k) (?acc @ [?acc ! (k - 1) @ [x]])
      \<Longrightarrow> ?thesis"
      by (simp only:)
    moreover have "partition_loop (x # xs) k ?acc =
        partition_loop xs (Suc k) (?acc @ [?acc ! (k - 1) @ [x]])"
      using False by (simp only: partition_loop.simps if_False)
    ultimately show ?thesis .
  qed
  also have "\<dots> = partition_loop xs (Suc k) ?acc'"
    by (simp only: grown)
  also have "\<dots> = map (\<lambda>j. take (Suc j) ((pre @ [x]) @ xs)) [0..<Suc k + length xs]"
    using Cons.prems by (intro Cons.IH) simp
  finally show ?case by simp
qed

lemma partitionQuery_cumulative:
  "partitionQuery q False = map (\<lambda>i. take (Suc i) q) [0..<length q]"
  using partition_loop_prefixes[of "[]" 0 q] by (simp add: partitionQuery_def)

lemma dropped_append [simp]: "dropped (xs @ ys) = dropped xs + dropped ys"
  by (simp add: dropped_def)

lemma dropped_Nil [simp]: "dropped [] = 0"
  by (simp add: dropped_def)

lemma dropped_Cons [simp]: "dropped (ev # evs) = (if ev = DropDatabase then 1 else 0) + dropped evs"
  by (simp add: dropped_def)

lemma errors_of_append [simp]: "errors_of (xs @ ys) = errors_of xs @ errors_of ys"
  by (induction xs rule: errors_of.induct) simp_all

lemma stage_events_only: "list_all stage_event (stage_events E ips)"
  by (induction E ips rule: stage_events.induct) (simp_all split: sum.splits)

lemma stage_event_dropped: "list_all stage_event evs \<Longrightarrow> dropped evs = 0"
  by (induction evs) (auto elim: stage_event.elims)

lemma stage_event_errors: "list_all stage_event evs \<Longrightarrow> errors_of evs = []"
  by (induction evs rule: errors_of.induct) simp_all

lemma stage_event_callback: "list_all stage_event evs \<Longrightarrow> filter is_callback evs = []"
  by (induction evs) (auto elim: stage_event.elims)

lemma stage_event_filter: "list_all stage_event evs \<Longrightarrow> filter stage_event evs = evs"
  by (induction evs) auto

lemma stage_all_ok:
  "\<forall>(i, p) \<in> set ips. on_aggregate E i p = Inr (r i) \<Longrightarrow>
     stage_err E ips = None
     \<and> stage_events E ips = concat (map (\<lambda>(i, p). [BeforeEach p i, Aggregate p, AfterEach (r i) i]) ips)"
  by (induction ips) auto

lemma stage_err_None_iff:
  "stage_err E ips = None \<longleftrightarrow> (\<forall>(i, p) \<in> set ips. \<exists>r. on_aggregate E i p = Inr r)"
  by (induction ips) (auto split: sum.splits)

lemma enumerate_cumulative:
  "enumerate 0 (partitionQuery q False) = map (\<lambda>i. (i, take (Suc i) q)) [0..<length q]"
  by (simp add: partitionQuery_cumulative enumerate_eq_zip zip_map2 zip_same_conv_map)

lemma stages_obs_ok:
  "\<forall>(i, p) \<in> set (enumerate k ps). on_aggregate E i p = Inr (r i) \<Longrightarrow> length out0 = k \<Longrightarrow>
     stage_obs E stages_beforeEach stages_afterEach (enumerate k ps) (out0, u) =
       (out0 @ map (\<lambda>(i, p). Some (Entry (Some p) (Some (r i)))) (enumerate k ps), u)"
proof (induction ps arbitrary: k out0)
  case Nil
  then show ?case by simp
next
  case (Cons p ps)
  have head: "on_aggregate E k p = Inr (r k)"
    using Cons.prems(1) by simp
  have rest: "\<forall>(i, p) \<in> set (enumerate (Suc k) ps). on_aggregate E i p = Inr (r i)"
    using Cons.prems(1) by simp
  have one: "stages_afterEach (r k) k (stages_beforeEach p k (out0, u)) =
      (out0 @ [Some (Entry (Some p) (Some (r k)))], u)"
    unfolding Cons.prems(2)[symmetric]
    by (simp add: stages_afterEach_def stages_beforeEach_def js_get_def js_put_def)
  show ?case
    using Cons.IH[OF rest, of "out0 @ [Some (Entry (Some p) (Some (r k)))]"] Cons.prems(2)
    by (simp add: head one)
qed

lemma buildConnectionUrl_trace [simp]:
  "trace (snd (buildConnectionUrl env y)) = trace y"
  by (simp add: buildConnectionUrl_def Let_def)

lemma buildConnectionUrl_doSkipStages [simp]:
  "doSkipStages (snd (buildConnectionUrl env y)) = doSkipStages y"
  by (simp add: buildConnectionUrl_def Let_def)

lemma series_done_None:
  "series_done E f (None, (y, s)) = (y\<lparr>trace := trace y @ [Close, Callback None]\<rparr>, f None s)"
  by (simp add: series_done_def)

lemma series_done_Some:
  "series_done E f (Some e, (y, s)) =
     (let r = (case on_dropDatabase E (dropped (trace y)) of Some a \<Rightarrow> Some a | None \<Rightarrow> Some e)
      in (y\<lparr>trace := trace y @ [DropDatabase, Close, Callback None, Close, Callback r]\<rparr>,
          f r (f None s)))"
  by (simp add: series_done_def Let_def)

lemma series_tasks:
  "series (insert_task E docs # map (\<lambda>(index, queryPart). stage_task E b a queryPart index) ips
           @ [dropDatabase_task E]) (y, s) =
     (case on_insert E docs of
        Some e \<Rightarrow> (Some e, (y\<lparr>trace := trace y @ [Insert docs]\<rparr>, s))
      | None \<Rightarrow>
          (case stage_err E ips of
             Some e \<Rightarrow> (Some e, (y\<lparr>trace := trace y @ Insert docs # stage_events E ips\<rparr>,
                                 stage_obs E b a ips s))
           | None \<Rightarrow> (on_dropDatabase E (dropped (trace y)),
                       (y\<lparr>trace := trace y @ Insert docs # stage_events E ips @ [DropDatabase]\<rparr>,
                        stage_obs E b a ips s))))"
  by (simp add: series_append series_stages insert_task_def dropDatabase_task_def
      stage_event_dropped[OF stage_events_only] split: option.splits)

lemma connected_series:
  "connected E docs stgs b a f None w =
     series_done E f
       (series (insert_task E docs
                  # map (\<lambda>(index, queryPart). stage_task E b a queryPart index)
                      (enumerate 0 (partitionQuery stgs (doSkipStages (fst w))))
                  @ [dropDatabase_task E]) w)"
  by (simp add: connected_def Let_def)

lemma connected_sys:
  "fst (connected E docs stgs b a f None (y, s)) =
     y\<lparr>trace := trace y
        @ tail_events E docs (enumerate 0 (partitionQuery stgs (doSkipStages y))) (dropped (trace y))\<rparr>"
  unfolding connected_series fst_conv series_tasks
  by (simp add: series_done_None series_done_Some Let_def
      tail_events_def cleanup_events_def stage_event_dropped[OF stage_events_only]
      split: option.splits)

lemma connected_failed:
  "connected E docs stgs b a f (Some e) (y, s) =
     (y\<lparr>trace := trace y @ [Callback (Some e)]\<rparr>, f (Some e) s)"
  by (simp add: connected_def)

lemma debug_shape:
  assumes "(skipStages = Fn f \<and> cb = Val JUndefined \<and> \<not> sk) \<or> (skipStages = Val (JBool sk) \<and> cb = Fn f)"
  shows "debug env E data q b a skipStages cb w =
           debug_checked env E data q b a (Fn f) (set_doSkipStages sk w)"
  using assms by (auto simp add: debug_def)

lemma buildConnectionUrl_flag:
  "fst (buildConnectionUrl env (y\<lparr>doSkipStages := sk\<rparr>)) = fst (buildConnectionUrl env y)"
  by (simp add: buildConnectionUrl_def Let_def)

lemma stage_events_no_drop: "\<forall>ev \<in> set (stage_events E ips). ev \<noteq> DropDatabase"
  using stage_events_only[of E ips] by (auto simp add: list_all_iff)

lemma tail_events_stage_filter:
  "filter stage_event (tail_events E docs ips n) =
     (case on_insert E docs of Some e \<Rightarrow> [] | None \<Rightarrow> stage_events E ips)"
  by (simp add: tail_events_def cleanup_events_def stage_event_filter[OF stage_events_only]
      split: option.splits)

lemma tail_events_dropped:
  "dropped (tail_events E docs ips n) =
     (if on_insert E docs = None \<and> stage_err E ips = None \<and> on_dropDatabase E n \<noteq> None
      then 2 else 1)"
  by (simp add: tail_events_def cleanup_events_def stage_event_dropped[OF stage_events_only]
      split: option.splits)

lemma tail_events_before_drop:
  "takeWhile (\<lambda>ev. ev \<noteq> DropDatabase) (tail_events E docs ips n) =
     Insert docs # (case on_insert E docs of Some e \<Rightarrow> [] | None \<Rightarrow> stage_events E ips)"
  by (simp add: tail_events_def cleanup_events_def takeWhile_append2[OF stage_events_no_drop[rule_format]]
      split: option.splits)

lemma tail_events_errors:
  "on_insert E docs = Some e \<or> (on_insert E docs = None \<and> stage_err E ips = Some e) \<Longrightarrow>
     errors_of (tail_events E docs ips n) =
       [case on_dropDatabase E n of Some a \<Rightarrow> a | None \<Rightarrow> e]"
  by (auto simp add: tail_events_def cleanup_events_def stage_event_errors[OF stage_events_only]
      split: option.splits)

lemma stage_err_first_failure:
  "k < length ps \<Longrightarrow> \<forall>j<k. \<exists>r. on_aggregate E (m + j) (ps ! j) = Inr r \<Longrightarrow>
     on_aggregate E (m + k) (ps ! k) = Inl e \<Longrightarrow> stage_err E (enumerate m ps) = Some e"
proof (induction ps arbitrary: m k)
  case Nil
  then show ?case by simp
next
  case (Cons p ps)
  show ?case
  proof (cases k)
    case 0
    then show ?thesis using Cons.prems by simp
  next
    case (Suc k')
    from Cons.prems(2) Suc obtain r where r: "on_aggregate E m p = Inr r"
      by force
    have "\<forall>j<k'. \<exists>r. on_aggregate E (Suc m + j) (ps ! j) = Inr r"
      using Cons.prems(2) Suc by force
    moreover have "on_aggregate E (Suc m + k') (ps ! k') = Inl e"
      using Cons.prems(3) Suc by simp
    moreover have "k' < length ps"
      using Cons.prems(1) Suc by simp
    ultimately have "stage_err E (enumerate (Suc m) ps) = Some e"
      by (rule Cons.IH[rotated])
    then show ?thesis by (simp add: r)
  qed
qed

lemma stage_obs_inv:
  assumes "\<And>p i s. I s \<Longrightarrow> I (b p i s)" and "\<And>r i s. I s \<Longrightarrow> I (a r i s)"
  shows "I s \<Longrightarrow> I (stage_obs E b a ips s)"
  by (induction ips arbitrary: s) (auto simp add: assms split: sum.splits)

lemma connected_obs:
  "snd (connected E docs stgs b a f None (y, s)) =
     (let ips = enumerate 0 (partitionQuery stgs (doSkipStages y));
          n = dropped (trace y);
          again = (\<lambda>e m. case on_dropDatabase E m of Some x \<Rightarrow> Some x | None \<Rightarrow> Some e)
      in case on_insert E docs of
           Some e \<Rightarrow> f (again e n) (f None s)
         | None \<Rightarrow>
             (case stage_err E ips of
                Some e \<Rightarrow> f (again e n) (f None (stage_obs E b a ips s))
              | None \<Rightarrow>
                  (case on_dropDatabase E n of
                     None \<Rightarrow> f None (stage_obs E b a ips s)
                   | Some e \<Rightarrow> f (again e (Suc n)) (f None (stage_obs E b a ips s)))))"
  unfolding connected_series fst_conv series_tasks
  by (simp add: series_done_None series_done_Some Let_def
      stage_event_dropped[OF stage_events_only] split: option.splits)

lemma connected_inv:
  assumes "\<And>p i s. I s \<Longrightarrow> I (b p i s)" and "\<And>r i s. I s \<Longrightarrow> I (a r i s)"
    and "\<And>e s. I s \<Longrightarrow> I (f e s)" and "I s"
  shows "I (snd (connected E docs stgs b a f err (y, s)))"
proof (cases err)
  case None
  have "I (stage_obs E b a ips s)" for ips
    using assms(1,2,4) by (rule stage_obs_inv)
  then show ?thesis
    unfolding None connected_obs
    by (simp add: Let_def assms(3,4) split: option.splits)
next
  case (Some e)
  then show ?thesis by (simp add: connected_failed assms(3,4))
qed

lemma show_nat_digit: "n < 10 \<Longrightarrow> show_nat n = [digit n]"
  by (simp add: show_nat.simps)

lemma show_nat_more: "\<not> n < 10 \<Longrightarrow> show_nat n = show_nat (n div 10) @ [digit (n mod 10)]"
  by (subst show_nat.simps) simp

lemma digit_inj: "a < 10 \<Longrightarrow> b < 10 \<Longrightarrow> digit a = digit b \<Longrightarrow> a = b"
proof -
  assume a: "a < 10" and b: "b < 10" and eq: "digit a = digit b"
  have "distinct ''0123456789''" by simp
  moreover have "a < length ''0123456789''" "b < length ''0123456789''"
    using a b by simp_all
  ultimately show "a = b"
    using eq unfolding digit_def by (simp only: nth_eq_iff_index_eq)
qed

lemma digit_in: "d < 10 \<Longrightarrow> digit d \<in> set ''0123456789''"
  unfolding digit_def by (rule nth_mem) simp

lemma show_nat_digits: "set (show_nat n) \<subseteq> set ''0123456789''"
proof (induction n rule: show_nat.induct)
  case (1 n)
  show ?case
  proof (cases "n < 10")
    case True
    then show ?thesis using digit_in[of n] by (simp add: show_nat_digit)
  next
    case False
    have "digit (n mod 10) \<in> set ''0123456789''"
      by (rule digit_in) simp
    then show ?thesis using 1[OF False] False by (simp add: show_nat_more)
  qed
qed

lemma show_nat_no_underscore: "CHR ''_'' \<notin> set (show_nat n)"
  using show_nat_digits[of n] by auto

lemma show_nat_length: "\<not> n < 10 \<Longrightarrow> 2 \<le> length (show_nat n)"
proof -
  assume n: "\<not> n < 10"
  have "1 \<le> length (show_nat m)" for m
    by (cases "m < 10") (simp_all add: show_nat_digit show_nat_more)
  from this[of "n div 10"] show ?thesis
    using n by (simp add: show_nat_more)
qed

lemma show_nat_inj: "show_nat m = show_nat n \<Longrightarrow> m = n"
proof (induction m arbitrary: n rule: show_nat.induct)
  case (1 m)
  show ?case
  proof (cases "m < 10")
    case True
    note m = this
    show ?thesis
    proof (cases "n < 10")
      case True
      then show ?thesis using m "1.prems" digit_inj by (simp add: show_nat_digit)
    next
      case False
      from "1.prems" have "length (show_nat m) = length (show_nat n)"
        by simp
      then show ?thesis using m show_nat_length[OF False] by (simp add: show_nat_digit)
    qed
  next
    case False
    note m = this
    show ?thesis
    proof (cases "n < 10")
      case True
      from "1.prems" have "length (show_nat m) = length (show_nat n)"
        by simp
      then show ?thesis using True show_nat_length[OF m] by (simp add: show_nat_digit)
    next
      case False
      from "1.prems" have eq: "show_nat (m div 10) @ [digit (m mod 10)] =
          show_nat (n div 10) @ [digit (n mod 10)]"
        by (simp add: show_nat_more[OF m] show_nat_more[OF False])
      then have "show_nat (m div 10) = show_nat (n div 10)" and d: "digit (m mod 10) = digit (n mod 10)"
        by simp_all
      then have "m div 10 = n div 10"
        using "1.IH"[OF m] by blast
      moreover have "m mod 10 = n mod 10"
        using d by (intro digit_inj) simp_all
      ultimately show ?thesis
        by (metis div_mult_mod_eq)
    qed
  qed
qed

lemma generateDatabaseName_inj:
  "generateDatabaseName e = generateDatabaseName e' \<longleftrightarrow> pid e = pid e' \<and> now e = now e'"
proof
  assume "generateDatabaseName e = generateDatabaseName e'"
  then have "show_nat (pid e) @ CHR ''_'' # show_nat (now e) =
      show_nat (pid e') @ CHR ''_'' # show_nat (now e')"
    by (simp add: generateDatabaseName_def)
  then have "show_nat (pid e) = show_nat (pid e') \<and> show_nat (now e) = show_nat (now e')"
    using show_nat_no_underscore by (simp add: append_Cons_eq_iff)
  then show "pid e = pid e' \<and> now e = now e'"
    using show_nat_inj by blast
next
  assume "pid e = pid e' \<and> now e = now e'"
  then show "generateDatabaseName e = generateDatabaseName e'"
    by (simp add: generateDatabaseName_def)
qed

lemma check_data_None_iff:
  "check_data data = None \<longleftrightarrow> (\<forall>xs. data \<noteq> Val (JArr xs)) \<and> (\<forall>kvs. data \<noteq> Val (JObj kvs))"
proof (cases data)
  case (Fn f)
  then show ?thesis by simp
next
  case (Val v)
  then show ?thesis by (cases v) simp_all
qed

lemma check_query_None_iff:
  "check_query q = None \<longleftrightarrow> (\<forall>xs. q \<noteq> Val (JArr xs))"
proof (cases q)
  case (Fn f)
  then show ?thesis by simp
next
  case (Val v)
  then show ?thesis by (cases v) simp_all
qed

lemma typeof_undefined_iff: "typeof_val v = TUndefined \<longleftrightarrow> v = JUndefined"
  by (cases v) simp_all

lemma stage_events_prefix:
  "\<exists>rest. concat (map (\<lambda>(i, p). [BeforeEach p i, Aggregate p,
        AfterEach (case on_aggregate E i p of Inl e \<Rightarrow> JUndefined | Inr x \<Rightarrow> x) i]) ips) =
      stage_events E ips @ rest"
proof (induction ips)
  case Nil
  show ?case by simp
next
  case (Cons ip ips)
  obtain i p where ip: "ip = (i, p)" by (cases ip)
  from Cons.IH obtain rest where rest:
    "concat (map (\<lambda>(i, p). [BeforeEach p i, Aggregate p,
        AfterEach (case on_aggregate E i p of Inl e \<Rightarrow> JUndefined | Inr x \<Rightarrow> x) i]) ips) =
      stage_events E ips @ rest"
    by blast
  show ?case
    by (cases "on_aggregate E i p") (simp_all add: ip rest)
qed

lemma meanwhile_trace [simp]: "trace (meanwhile g y) = trace y"
  by (simp add: meanwhile_def)

lemma meanwhile_doSkipStages [simp]: "doSkipStages (meanwhile g y) = doSkipStages g"
  by (simp add: meanwhile_def)

lemma meanwhile_debugDatabaseName [simp]: "debugDatabaseName (meanwhile g y) = debugDatabaseName g"
  by (simp add: meanwhile_def)

lemma meanwhile_mongoParams [simp]: "mongoParams (meanwhile g y) = mongoParams g"
  by (simp add: meanwhile_def)

lemma debug_checked_connecting:
  assumes "check_data data = Some docs" and "check_query q = Some stgs"
  shows "debug_checked env E data q b a (Fn f) (y, s) =
     Connecting (fst (buildConnectionUrl env y))
       (connected E docs stgs (hook_or_noop b) (hook_or_noop a) f)
       ((snd (buildConnectionUrl env y))\<lparr>trace := trace y @ [Connect (fst (buildConnectionUrl env y))]\<rparr>, s)"
  using assms by (simp add: debug_checked_def getMongoConnection_def split_beta)

lemma debug_checked_events:
  "trace (fst (answered E g (debug_checked env E data q b a (Fn f) (set_doSkipStages sk (y, s))))) =
     trace y @ session_events env E data q (doSkipStages g) y"
proof (cases "check_data data")
  case None
  then show ?thesis
    by (simp add: debug_checked_def session_events_def set_doSkipStages_def)
next
  case (Some docs)
  note docs = this
  show ?thesis
  proof (cases "check_query q")
    case None
    then show ?thesis
      using docs by (simp add: debug_checked_def session_events_def set_doSkipStages_def)
  next
    case (Some stgs)
    note stgs = this
    show ?thesis
    proof (cases "on_connect E (fst (buildConnectionUrl env y))")
      case None
      then show ?thesis
        using docs stgs
        by (simp add: debug_checked_connecting[OF docs stgs] session_events_def
            set_doSkipStages_def connected_sys buildConnectionUrl_flag)
    next
      case (Some e)
      then show ?thesis
        using docs stgs
        by (simp add: debug_checked_connecting[OF docs stgs] session_events_def
            set_doSkipStages_def connected_failed buildConnectionUrl_flag)
    qed
  qed
qed

lemma debug_events:
  assumes "(skipStages = Fn f \<and> cb = Val JUndefined \<and> \<not> sk) \<or> (skipStages = Val (JBool sk) \<and> cb = Fn f)"
  shows "events_since (y, s) (answered E g (debug env E data q b a skipStages cb (y, s))) =
           session_events env E data q (doSkipStages g) y"
  by (simp add: debug_shape[OF assms] events_since_def debug_checked_events)

lemma debug_checked_not_thrown:
  "debug_checked env E data q b a (Fn f) w \<noteq> Threw e w'"
  by (simp add: debug_checked_def getMongoConnection_def split_beta split: option.splits)

lemma debug_not_thrown:
  assumes "(skipStages = Fn f \<and> cb = Val JUndefined \<and> \<not> sk) \<or> (skipStages = Val (JBool sk) \<and> cb = Fn f)"
  shows "debug env E data q b a skipStages cb w \<noteq> Threw e w'"
  by (simp add: debug_shape[OF assms] debug_checked_not_thrown)

lemma debug_checked_inv:
  assumes "\<And>p i s. I s \<Longrightarrow> I (hook_or_noop b p i s)" and "\<And>r i s. I s \<Longrightarrow> I (hook_or_noop a r i s)"
    and "\<And>e s. I s \<Longrightarrow> I (f e s)" and "I s"
  shows "I (snd (answered E g (debug_checked env E data q b a (Fn f) (y, s))))"
proof -
  have "I (snd (connected E docs stgs (hook_or_noop b) (hook_or_noop a) f err (y', s)))"
    for docs stgs err y'
    using assms by (rule connected_inv)
  then show ?thesis
    by (simp add: debug_checked_def getMongoConnection_def split_beta assms(3,4)
        split: option.splits)
qed

lemma debug_inv:
  assumes call: "(skipStages = Fn f \<and> cb = Val JUndefined \<and> \<not> sk) \<or> (skipStages = Val (JBool sk) \<and> cb = Fn f)"
    and "\<And>p i s. I s \<Longrightarrow> I (hook_or_noop b p i s)" and "\<And>r i s. I s \<Longrightarrow> I (hook_or_noop a r i s)"
    and "\<And>e s. I s \<Longrightarrow> I (f e s)" and "I s"
  shows "I (snd (answered E g (debug env E data q b a skipStages cb (y, s))))"
  unfolding debug_shape[OF call] set_doSkipStages_def fst_conv snd_conv
  using assms(2-5) by (rule debug_checked_inv)

lemma debug_obs_ok:
  assumes call: "(skipStages = Fn f \<and> cb = Val JUndefined \<and> \<not> sk) \<or> (skipStages = Val (JBool sk) \<and> cb = Fn f)"
    and data: "check_data data = Some docs"
    and query: "check_query q = Some stgs"
    and conn: "on_connect E (fst (buildConnectionUrl env y)) = None"
    and seed: "on_insert E docs = None"
    and runs: "stage_err E (enumerate 0 (partitionQuery stgs (doSkipStages g))) = None"
    and drop: "on_dropDatabase E (dropped (trace y)) = None"
  shows "snd (answered E g (debug env E data q b a skipStages cb (y, s))) =
           f None (stage_obs E (hook_or_noop b) (hook_or_noop a)
                     (enumerate 0 (partitionQuery stgs (doSkipStages g))) s)"
  unfolding debug_shape[OF call]
  using data query conn seed runs drop
  by (simp add: debug_checked_connecting[OF data query] set_doSkipStages_def
      buildConnectionUrl_flag connected_obs Let_def)

lemma session_events_hd:
  "check_data data = Some docs \<Longrightarrow> check_query q = Some stgs \<Longrightarrow>
     hd (session_events env E data q sk y) = Connect (fst (buildConnectionUrl env y))"
  by (simp add: session_events_def Let_def split: option.splits)

lemma session_events_stage_filter:
  "check_data data = Some docs \<Longrightarrow> check_query q = Some stgs \<Longrightarrow>
     filter stage_event (session_events env E data q sk y) =
       (if on_connect E (fst (buildConnectionUrl env y)) = None \<and> on_insert E docs = None
        then stage_events E (enumerate 0 (partitionQuery stgs sk)) else [])"
  by (auto simp add: session_events_def Let_def tail_events_stage_filter split: option.splits)

lemma debug_sys_hooks:
  "fst (answered E g (debug env E data q b a skipStages cb (y, s))) =
     fst (answered E g (debug env E data q b' a' skipStages cb (y, s)))"
proof -
  have conn: "fst (connected E docs stgs h1 h2 f err w) = fst (connected E docs stgs h1' h2' f err w)"
    for docs stgs h1 h2 h1' h2' f err and w :: "'a world"
    by (cases w; cases err) (simp_all add: connected_sys connected_failed)
  have checked: "fst (answered E g (debug_checked env E data q b a c w)) =
      fst (answered E g (debug_checked env E data q b' a' c w))" for c and w :: "'a world"
    by (simp add: debug_checked_def getMongoConnection_def split_beta conn
        split: arg.splits option.splits)
  show ?thesis
    by (simp add: debug_def checked split: arg.splits)
qed

lemma debug_flag:
  assumes "(skipStages = Fn f \<and> cb = Val JUndefined \<and> \<not> sk) \<or> (skipStages = Val (JBool sk) \<and> cb = Fn f)"
  shows "doSkipStages (fst (world_of (debug env E data q b a skipStages cb (y, s)))) = sk"
  by (simp add: debug_shape[OF assms] debug_checked_def set_doSkipStages_def
      getMongoConnection_def split_beta split: option.splits)

lemma undisturbed_events:
  assumes "(skipStages = Fn f \<and> cb = Val JUndefined \<and> \<not> sk) \<or> (skipStages = Val (JBool sk) \<and> cb = Fn f)"
  shows "events_since (y, s) (undisturbed E (debug env E data q b a skipStages cb (y, s))) =
           session_events env E data q sk y"
  unfolding undisturbed_def
  by (simp add: debug_events[OF assms] debug_flag[OF assms])

lemma stages_flag:
  "doSkipStages (fst (world_of (stages env E data q cb (y, u)))) = False"
  by (simp add: stages_def enter_def debug_def debug_checked_def set_doSkipStages_def
      getMongoConnection_def split_beta split: option.splits)

lemma exec_flag:
  "doSkipStages (fst (world_of (exec env E data q cb (y, u)))) = True"
  by (simp add: exec_def enter_def debug_def debug_checked_def set_doSkipStages_def
      getMongoConnection_def split_beta split: option.splits)

lemma log_flag:
  "doSkipStages (fst (world_of (log env E data q options cb (y, u)))) = False"
  by (simp add: log_def enter_def debug_def debug_checked_def set_doSkipStages_def
      getMongoConnection_def split_beta Let_def split: option.splits)

lemma stage_obs_all_ok:
  "\<forall>(i, p) \<in> set ips. on_aggregate E i p = Inr (r i) \<Longrightarrow>
     stage_obs E b a ips s = fold (\<lambda>(i, p) s. a (r i) i (b p i s)) ips s"
  by (induction ips arbitrary: s) auto

lemma data0_ok: "check_data data0 = Some [JObj [(''n'', JNum 1)], JObj [(''n'', JNum 2)]]"
  by (simp add: data0_def)

lemma query0_ok: "check_query query0 = Some [stage_match, stage_limit]"
  by (simp add: query0_def)

lemma session_events_aggregate_single:
  "check_data data = Some docs \<Longrightarrow> check_query q = Some stgs \<Longrightarrow>
     filter is_aggregate (session_events env E data q True y) =
       (if on_connect E (fst (buildConnectionUrl env y)) = None \<and> on_insert E docs = None
        then [Aggregate stgs] else [])"
  by (auto simp add: session_events_def Let_def partitionQuery_def tail_events_def
      cleanup_events_def split: option.splits sum.splits)

text \<open>
  What the three claims about the modes say does hold of a session that finds, when
  its connection answers, the mode that its own call assigned. This is so in particular
  when no other call is made in between (\<open>undisturbed\<close>).
\<close>

lemma stages_output_when_mode_kept:
  assumes flag: "\<not> doSkipStages g"
    and data: "check_data data = Some docs"
    and query: "check_query q = Some stgs"
    and conn: "on_connect E (fst (buildConnectionUrl env y)) = None"
    and seed: "on_insert E docs = None"
    and runs: "\<forall>i<length stgs. on_aggregate E i (take (Suc i) stgs) = Inr (r i)"
    and drop: "on_dropDatabase E (dropped (trace y)) = None"
  shows "snd (answered E g (stages env E data q (Fn f) (y, u))) =
           (map (\<lambda>i. Some (Entry (Some (take (Suc i) stgs)) (Some (r i)))) [0..<length stgs],
            f None (Some (map (\<lambda>i. Some (Entry (Some (take (Suc i) stgs)) (Some (r i))))
                            [0..<length stgs])) u)"
proof -
  let ?ips = "enumerate 0 (partitionQuery stgs (doSkipStages g))"
  let ?out = "map (\<lambda>i. Some (Entry (Some (take (Suc i) stgs)) (Some (r i)))) [0..<length stgs]"
  let ?done = "stages_done (callback_or_noop (Fn f)) :: (entry option list \<times> 'a) callback"
  have call: "((Fn ?done :: (entry option list \<times> 'a) callback arg) = Fn ?done
        \<and> (Val JUndefined :: (entry option list \<times> 'a) callback arg) = Val JUndefined \<and> \<not> False)
      \<or> ((Fn ?done :: (entry option list \<times> 'a) callback arg) = Val (JBool False)
        \<and> (Val JUndefined :: (entry option list \<times> 'a) callback arg) = Fn ?done)"
    by simp
  have ok: "\<forall>(i, p) \<in> set ?ips. on_aggregate E i p = Inr (r i)"
    using runs flag by (simp add: enumerate_cumulative)
  then have err: "stage_err E ?ips = None"
    using stage_all_ok by blast
  have obs: "stage_obs E stages_beforeEach stages_afterEach ?ips ([], u) = (?out, u)"
    using stages_obs_ok[OF ok, of "[]" u] flag
    by (simp add: enumerate_cumulative comp_def)
  have "snd (answered E g (stages env E data q (Fn f) (y, u))) =
      ?done None (stage_obs E stages_beforeEach stages_afterEach ?ips ([], u))"
    unfolding stages_def enter_def fst_conv snd_conv
    using debug_obs_ok[OF call data query conn seed err drop,
        of "Fn stages_beforeEach" "Fn stages_afterEach" "([], u)"]
    by simp
  then show ?thesis
    by (simp add: obs stages_done_def)
qed

lemma exec_submits_once_when_mode_kept:
  assumes flag: "doSkipStages g"
    and data: "check_data data = Some docs"
    and query: "check_query q = Some stgs"
  shows "filter is_aggregate
           (events_since (y, u) (answered E g (exec env E data q (Fn f) (y, u)))) =
           (if on_connect E (fst (buildConnectionUrl env y)) = None \<and> on_insert E docs = None
            then [Aggregate stgs] else [])"
proof -
  let ?done = "exec_done f :: (jsval \<times> 'a) callback"
  have call: "((Val (JBool True) :: (jsval \<times> 'a) callback arg) = Fn ?done
        \<and> (Fn ?done :: (jsval \<times> 'a) callback arg) = Val JUndefined \<and> \<not> True)
      \<or> ((Val (JBool True) :: (jsval \<times> 'a) callback arg) = Val (JBool True)
        \<and> (Fn ?done :: (jsval \<times> 'a) callback arg) = Fn ?done)"
    by simp
  have "events_since (y, (JUndefined, u))
      (answered E g (debug env E data q (Val JNull) (Fn exec_afterEach) (Val (JBool True))
         (Fn ?done) (y, (JUndefined, u)))) = session_events env E data q (doSkipStages g) y"
    by (rule debug_events[OF call])
  then show ?thesis
    using session_events_aggregate_single[OF data query, of env E y] flag
    by (simp add: exec_def enter_def events_since_def)
qed

lemma exec_result_when_mode_kept:
  assumes flag: "doSkipStages g"
    and data: "check_data data = Some docs"
    and query: "check_query q = Some stgs"
    and conn: "on_connect E (fst (buildConnectionUrl env y)) = None"
    and seed: "on_insert E docs = None"
    and run: "on_aggregate E 0 stgs = Inr r"
    and drop: "on_dropDatabase E (dropped (trace y)) = None"
  shows "snd (answered E g (exec env E data q (Fn f) (y, u))) = (r, f None r u)"
proof -
  let ?done = "exec_done f :: (jsval \<times> 'a) callback"
  have call: "((Val (JBool True) :: (jsval \<times> 'a) callback arg) = Fn ?done
        \<and> (Fn ?done :: (jsval \<times> 'a) callback arg) = Val JUndefined \<and> \<not> True)
      \<or> ((Val (JBool True) :: (jsval \<times> 'a) callback arg) = Val (JBool True)
        \<and> (Fn ?done :: (jsval \<times> 'a) callback arg) = Fn ?done)"
    by simp
  have parts: "enumerate 0 (partitionQuery stgs (doSkipStages g)) = [(0, stgs)]"
    using flag by (simp add: partitionQuery_def)
  have err: "stage_err E (enumerate 0 (partitionQuery stgs (doSkipStages g))) = None"
    using run by (simp add: parts)
  have "snd (answered E g (debug env E data q (Val JNull) (Fn exec_afterEach) (Val (JBool True))
        (Fn ?done) (y, (JUndefined, u)))) =
      ?done None (stage_obs E (hook_or_noop (Val JNull)) (hook_or_noop (Fn exec_afterEach))
        (enumerate 0 (partitionQuery stgs (doSkipStages g))) (JUndefined, u))"
    by (rule debug_obs_ok[OF call data query conn seed err drop])
  then show ?thesis
    using run by (simp add: exec_def enter_def parts exec_done_def exec_afterEach_def)
qed

lemma hooks_in_stage_order_when_mode_kept:
  assumes call: "(skipStages = Fn f \<and> cb = Val JUndefined) \<or> (skipStages = Val (JBool False) \<and> cb = Fn f)"
    and flag: "\<not> doSkipStages g"
    and data: "check_data data = Some docs"
    and query: "check_query q = Some stgs"
    and conn: "on_connect E (fst (buildConnectionUrl env y)) = None"
    and seed: "on_insert E docs = None"
    and runs: "\<forall>i<length stgs. on_aggregate E i (take (Suc i) stgs) = Inr (r i)"
  shows "filter stage_event
           (events_since (y, s)
              (answered E g (debug env E data q beforeEach afterEach skipStages cb (y, s)))) =
         concat (map (\<lambda>i. [BeforeEach (take (Suc i) stgs) i, Aggregate (take (Suc i) stgs),
                           AfterEach (r i) i]) [0..<length stgs])"
proof -
  from call have shape: "(skipStages = Fn f \<and> cb = Val JUndefined \<and> \<not> False)
      \<or> (skipStages = Val (JBool False) \<and> cb = Fn f)"
    by simp
  let ?ips = "enumerate 0 (partitionQuery stgs False)"
  have ok: "\<forall>(i, p) \<in> set ?ips. on_aggregate E i p = Inr (r i)"
    using runs by (simp add: enumerate_cumulative)
  have "filter stage_event
      (events_since (y, s)
         (answered E g (debug env E data q beforeEach afterEach skipStages cb (y, s)))) =
      stage_events E ?ips"
    using session_events_stage_filter[OF data query, of env E False y] conn seed flag
    by (simp add: debug_events[OF shape])
  also have "\<dots> = concat (map (\<lambda>(i, p). [BeforeEach p i, Aggregate p, AfterEach (r i) i]) ?ips)"
    using stage_all_ok[OF ok] by simp
  also have "\<dots> = concat (map (\<lambda>i. [BeforeEach (take (Suc i) stgs) i,
      Aggregate (take (Suc i) stgs), AfterEach (r i) i]) [0..<length stgs])"
    by (simp add: enumerate_cumulative comp_def)
  finally show ?thesis .
qed

lemma hooks_effects_when_mode_kept:
  assumes call: "(skipStages = Fn f \<and> cb = Val JUndefined) \<or> (skipStages = Val (JBool False) \<and> cb = Fn f)"
    and flag: "\<not> doSkipStages g"
    and data: "check_data data = Some docs"
    and query: "check_query q = Some stgs"
    and conn: "on_connect E (fst (buildConnectionUrl env y)) = None"
    and seed: "on_insert E docs = None"
    and runs: "\<forall>i<length stgs. on_aggregate E i (take (Suc i) stgs) = Inr (r i)"
    and drop: "on_dropDatabase E (dropped (trace y)) = None"
  shows "snd (answered E g (debug env E data q (Fn b) (Fn a) skipStages cb (y, s))) =
         f None (fold (\<lambda>i s. a (r i) i (b (take (Suc i) stgs) i s)) [0..<length stgs] s)"
proof -
  from call have shape: "(skipStages = Fn f \<and> cb = Val JUndefined \<and> \<not> False)
      \<or> (skipStages = Val (JBool False) \<and> cb = Fn f)"
    by simp
  let ?ips = "enumerate 0 (partitionQuery stgs (doSkipStages g))"
  have ok: "\<forall>(i, p) \<in> set ?ips. on_aggregate E i p = Inr (r i)"
    using runs flag by (simp add: enumerate_cumulative)
  then have err: "stage_err E ?ips = None"
    using stage_all_ok by blast
  have "snd (answered E g (debug env E data q (Fn b) (Fn a) skipStages cb (y, s))) =
      f None (stage_obs E (hook_or_noop (Fn b)) (hook_or_noop (Fn a)) ?ips s)"
    by (rule debug_obs_ok[OF shape data query conn seed err drop])
  also have "stage_obs E (hook_or_noop (Fn b)) (hook_or_noop (Fn a)) ?ips s =
      fold (\<lambda>(i, p) s. a (r i) i (b p i s)) ?ips s"
    using stage_obs_all_ok[OF ok] by simp
  also have "\<dots> = fold (\<lambda>i s. a (r i) i (b (take (Suc i) stgs) i s)) [0..<length stgs] s"
    using flag by (simp add: enumerate_cumulative fold_map comp_def)
  finally show ?thesis .
qed

lemma connected_name:
  "debugDatabaseName (fst (connected E docs stgs b a f r (y, s))) = debugDatabaseName y
   \<and> mongoParams (fst (connected E docs stgs b a f r (y, s))) = mongoParams y"
  by (cases r) (simp_all add: connected_sys connected_failed)

lemma debug_name_answered:
  assumes call: "(skipStages = Fn f \<and> cb = Val JUndefined \<and> \<not> sk) \<or> (skipStages = Val (JBool sk) \<and> cb = Fn f)"
    and data: "check_data data = Some docs"
    and query: "check_query q = Some stgs"
  shows "debugDatabaseName (fst (answered E g (debug env E data q b a skipStages cb (y, s)))) =
           debugDatabaseName g"
  unfolding debug_shape[OF call]
  by (simp add: debug_checked_connecting[OF data query] set_doSkipStages_def connected_name)

lemma debug_name_started:
  assumes call: "(skipStages = Fn f \<and> cb = Val JUndefined \<and> \<not> sk) \<or> (skipStages = Val (JBool sk) \<and> cb = Fn f)"
    and data: "check_data data = Some docs"
    and query: "check_query q = Some stgs"
  shows "debugDatabaseName (fst (world_of (debug env E data q b a skipStages cb (y, s)))) =
           debugDatabaseName (snd (buildConnectionUrl env y))"
  unfolding debug_shape[OF call]
  by (simp add: debug_checked_connecting[OF data query] set_doSkipStages_def
      buildConnectionUrl_def Let_def)

lemma url_sys0:
  "fst (buildConnectionUrl env0 sys0) =
     ''mongodb://localhost:27017/mongo_aggregation_debugger_7_1000''"
  by (simp add: buildConnectionUrl_def Let_def env0_def sys0_def defaultMongoParams_def
      present_def generateDatabaseName_def show_nat_digit show_nat_more digit_def)

lemma name_sys0:
  "debugDatabaseName (snd (buildConnectionUrl env0 sys0)) =
     Some ''mongo_aggregation_debugger_7_1000''"
  by (simp add: buildConnectionUrl_def Let_def env0_def sys0_def defaultMongoParams_def
      present_def generateDatabaseName_def show_nat_digit show_nat_more digit_def)

lemma name_env1:
  "generateDatabaseName env1 = ''mongo_aggregation_debugger_7_2000''"
  by (simp add: env1_def generateDatabaseName_def show_nat_digit show_nat_more digit_def)

lemma debug_params_started:
  assumes call: "(skipStages = Fn f \<and> cb = Val JUndefined \<and> \<not> sk) \<or> (skipStages = Val (JBool sk) \<and> cb = Fn f)"
  shows "mongoParams (fst (world_of (debug env E data q b a skipStages cb (y, s)))) = mongoParams y"
  unfolding debug_shape[OF call]
  by (simp add: debug_checked_def set_doSkipStages_def getMongoConnection_def split_beta emit_def
      buildConnectionUrl_def Let_def split: option.splits)

lemma debug_params_answered:
  assumes call: "(skipStages = Fn f \<and> cb = Val JUndefined \<and> \<not> sk) \<or> (skipStages = Val (JBool sk) \<and> cb = Fn f)"
    and data: "check_data data = Some docs"
    and query: "check_query q = Some stgs"
  shows "mongoParams (fst (answered E g (debug env E data q b a skipStages cb (y, s)))) =
           mongoParams g"
  unfolding debug_shape[OF call]
  by (simp add: debug_checked_connecting[OF data query] set_doSkipStages_def connected_name)

lemma debug_rejected:
  assumes call: "(skipStages = Fn f \<and> cb = Val JUndefined \<and> \<not> sk) \<or> (skipStages = Val (JBool sk) \<and> cb = Fn f)"
    and bad: "check_data data = None \<and> e = Error ''Invalid `data`''
      \<or> check_data data \<noteq> None \<and> check_query q = None \<and> e = Error ''Invalid `query`''"
  shows "debug env E data q b a skipStages cb (y, s) =
           Returned (y\<lparr>doSkipStages := sk, trace := trace y @ [Callback (Some e)]\<rparr>, f (Some e) s)"
  using bad
  by (auto simp add: debug_shape[OF call] debug_checked_def set_doSkipStages_def fire_def
      emit_def Let_def)

lemma rejected_call_assigns_mode:
  "doSkipStages sys0 = False
   \<and> doSkipStages (fst (world_of (debug env0 engine_ok (Val (JStr ''records'')) query0
        (Val JUndefined) (Val JUndefined) (Val (JBool True)) (Fn ignore) (sys0, ())))) = True"
  by (simp add: sys0_def debug_def debug_checked_def set_doSkipStages_def fire_def emit_def
      Let_def)

lemma session_events_ok:
  assumes data: "check_data data = Some docs"
    and query: "check_query q = Some stgs"
    and conn: "on_connect E (fst (buildConnectionUrl env y)) = None"
    and seed: "on_insert E docs = None"
    and runs: "\<forall>(i, p) \<in> set (enumerate 0 (partitionQuery stgs sk)). on_aggregate E i p = Inr (r i)"
    and drop: "on_dropDatabase E (dropped (trace y)) = None"
  shows "session_events env E data q sk y =
           Connect (fst (buildConnectionUrl env y)) # Insert docs
             # concat (map (\<lambda>(i, p). [BeforeEach p i, Aggregate p, AfterEach (r i) i])
                         (enumerate 0 (partitionQuery stgs sk)))
             @ [DropDatabase, Close, Callback None]"
  using stage_all_ok[OF runs] data query conn seed drop
  by (simp add: session_events_def tail_events_def)

lemma stages_events:
  "events_since (y, u) (answered E g (stages env E data q cb (y, u))) =
     session_events env E data q (doSkipStages g) y"
proof -
  let ?done = "stages_done (callback_or_noop cb) :: (entry option list \<times> 'a) callback"
  have call: "((Fn ?done :: (entry option list \<times> 'a) callback arg) = Fn ?done
        \<and> (Val JUndefined :: (entry option list \<times> 'a) callback arg) = Val JUndefined \<and> \<not> False)
      \<or> ((Fn ?done :: (entry option list \<times> 'a) callback arg) = Val (JBool False)
        \<and> (Val JUndefined :: (entry option list \<times> 'a) callback arg) = Fn ?done)"
    by simp
  have "events_since (y, ([] :: entry option list, u))
      (answered E g (debug env E data q (Fn stages_beforeEach) (Fn stages_afterEach) (Fn ?done)
         (Val JUndefined) (y, ([], u)))) = session_events env E data q (doSkipStages g) y"
    by (rule debug_events[OF call])
  then show ?thesis
    by (simp add: stages_def enter_def events_since_def)
qed

lemma exec_events:
  "events_since (y, u) (answered E g (exec env E data q cb (y, u))) =
     session_events env E data q (doSkipStages g) y"
proof -
  let ?done = "exec_done (callback_or_noop cb) :: (jsval \<times> 'a) callback"
  have call: "((Val (JBool True) :: (jsval \<times> 'a) callback arg) = Fn ?done
        \<and> (Fn ?done :: (jsval \<times> 'a) callback arg) = Val JUndefined \<and> \<not> True)
      \<or> ((Val (JBool True) :: (jsval \<times> 'a) callback arg) = Val (JBool True)
        \<and> (Fn ?done :: (jsval \<times> 'a) callback arg) = Fn ?done)"
    by simp
  have "events_since (y, (JUndefined, u))
      (answered E g (debug env E data q (Val JNull) (Fn exec_afterEach) (Val (JBool True))
         (Fn ?done) (y, (JUndefined, u)))) = session_events env E data q (doSkipStages g) y"
    by (rule debug_events[OF call])
  then show ?thesis
    by (simp add: exec_def enter_def events_since_def)
qed

lemma log_events:
  "events_since (y, u) (answered E g (log env E data q options cb (y, u))) =
     session_events env E data q (doSkipStages g) y"
proof -
  let ?cb1 = "if typeof options = TFunction \<and> typeof cb = TUndefined then options else cb"
  let ?done = "log_done (callback_or_noop ?cb1) :: (line list \<times> 'a) callback"
  have call: "((Fn ?done :: (line list \<times> 'a) callback arg) = Fn ?done
        \<and> (Val JUndefined :: (line list \<times> 'a) callback arg) = Val JUndefined \<and> \<not> False)
      \<or> ((Fn ?done :: (line list \<times> 'a) callback arg) = Val (JBool False)
        \<and> (Val JUndefined :: (line list \<times> 'a) callback arg) = Fn ?done)"
    by simp
  have "events_since (y, ([LogStart], u))
      (answered E g (debug env E data q (Fn (log_beforeEach (showQuery options)))
         (Fn log_afterEach) (Fn ?done) (Val JUndefined) (y, ([LogStart], u)))) =
      session_events env E data q (doSkipStages g) y"
    by (rule debug_events[OF call])
  then show ?thesis
    by (simp add: log_def Let_def enter_def events_since_def)
qed

lemma stages_not_thrown: "stages env E data q cb w \<noteq> Threw e w'"
  unfolding stages_def
  by (rule debug_not_thrown[where sk = False and f = "stages_done (callback_or_noop cb)"]) simp

lemma exec_not_thrown: "exec env E data q cb w \<noteq> Threw e w'"
  unfolding exec_def
  by (rule debug_not_thrown[where sk = True and f = "exec_done (callback_or_noop cb)"]) simp

lemma log_not_thrown: "log env E data q options cb w \<noteq> Threw e w'"
  unfolding log_def Let_def
  by (rule debug_not_thrown[where sk = False
        and f = "log_done (callback_or_noop
          (if typeof options = TFunction \<and> typeof cb = TUndefined then options else cb))"]) simp

lemma stages_discards:
  "snd (snd (answered E g (stages env E data q (Val v) (y, u)))) = u"
proof -
  let ?done = "stages_done (callback_or_noop (Val v)) :: (entry option list \<times> 'a) callback"
  have call: "((Fn ?done :: (entry option list \<times> 'a) callback arg) = Fn ?done
        \<and> (Val JUndefined :: (entry option list \<times> 'a) callback arg) = Val JUndefined \<and> \<not> False)
      \<or> ((Fn ?done :: (entry option list \<times> 'a) callback arg) = Val (JBool False)
        \<and> (Val JUndefined :: (entry option list \<times> 'a) callback arg) = Fn ?done)"
    by simp
  show ?thesis
    unfolding stages_def enter_def fst_conv snd_conv
    by (rule debug_inv[OF call, where I = "\<lambda>s. snd s = u"])
      (simp_all add: stages_beforeEach_def stages_afterEach_def stages_done_def Let_def
        split: option.splits)
qed

lemma exec_discards:
  "snd (snd (answered E g (exec env E data q (Val v) (y, u)))) = u"
proof -
  let ?done = "exec_done (callback_or_noop (Val v)) :: (jsval \<times> 'a) callback"
  have call: "((Val (JBool True) :: (jsval \<times> 'a) callback arg) = Fn ?done
        \<and> (Fn ?done :: (jsval \<times> 'a) callback arg) = Val JUndefined \<and> \<not> True)
      \<or> ((Val (JBool True) :: (jsval \<times> 'a) callback arg) = Val (JBool True)
        \<and> (Fn ?done :: (jsval \<times> 'a) callback arg) = Fn ?done)"
    by simp
  show ?thesis
    unfolding exec_def enter_def fst_conv snd_conv
    by (rule debug_inv[OF call, where I = "\<lambda>s. snd s = u"])
      (simp_all add: exec_afterEach_def exec_done_def split: option.splits)
qed

lemma log_discards:
  assumes "\<not> (typeof options = TFunction \<and> v = JUndefined)"
  shows "snd (snd (answered E g (log env E data q options (Val v) (y, u)))) = u"
proof -
  let ?done = "log_done (callback_or_noop (Val v)) :: (line list \<times> 'a) callback"
  have call: "((Fn ?done :: (line list \<times> 'a) callback arg) = Fn ?done
        \<and> (Val JUndefined :: (line list \<times> 'a) callback arg) = Val JUndefined \<and> \<not> False)
      \<or> ((Fn ?done :: (line list \<times> 'a) callback arg) = Val (JBool False)
        \<and> (Val JUndefined :: (line list \<times> 'a) callback arg) = Fn ?done)"
    by simp
  have noop: "(if typeof options = TFunction \<and> typeof (Val v :: (err option \<Rightarrow> unit \<Rightarrow> 'a \<Rightarrow> 'a) arg) = TUndefined
      then options else Val v) = Val v"
    using assms by (auto simp add: typeof_undefined_iff)
  show ?thesis
    unfolding log_def Let_def enter_def fst_conv snd_conv noop
    by (rule debug_inv[OF call, where I = "\<lambda>s. snd s = u"])
      (simp_all add: log_beforeEach_def log_afterEach_def log_done_def split: option.splits)
qed

section \<open>The claims\<close>

text \<open>
  Claim C1 fails as stated: when the \<open>dropDatabase\<close> task that ends the series fails, the
  handler of the series drops the database again, so the operation is invoked twice in
  one session.
\<close>

theorem dropDatabase_twice_counterexample:
  "dropped (events_since (sys0, ())
     (undisturbed engine_drop_fails
        (debug env0 engine_drop_fails data0 query0 (Val JUndefined) (Val JUndefined)
           (Fn ignore) (Val JUndefined) (sys0, ())))) = 2"
proof -
  have call: "((Fn ignore :: unit callback arg) = Fn ignore \<and> (Val JUndefined :: unit callback arg) = Val JUndefined \<and> \<not> False)
      \<or> ((Fn ignore :: unit callback arg) = Val (JBool False) \<and> (Val JUndefined :: unit callback arg) = Fn ignore)"
    by simp
  have "dropped (session_events env0 engine_drop_fails data0 query0 False sys0) = 2"
    by (simp add: session_events_def tail_events_dropped stage_err_None_iff data0_def query0_def
        engine_drop_fails_def engine_ok_def)
  then show ?thesis
    by (simp add: undisturbed_events[OF call])
qed

text \<open>
  Claim C1, amended. A session that is rejected by validation or whose connection fails
  never invokes \<open>dropDatabase\<close>. A session that acquired its store invokes it before the
  completion callback is called for the first time; it invokes it exactly once, except
  when seeding and every sub-pipeline succeeded and the \<open>dropDatabase\<close> task of the
  series itself failed, in which case the handler invokes it a second time. This holds
  whatever other calls left in the globals \<open>g\<close> before the connection answered; the
  sub-pipelines are those of the mode flag found then.
\<close>

theorem dropDatabase_invocations:
  assumes call: "(skipStages = Fn f \<and> cb = Val JUndefined \<and> \<not> sk) \<or> (skipStages = Val (JBool sk) \<and> cb = Fn f)"
  shows "(check_data data = None \<or> check_query q = None
            \<or> on_connect E (fst (buildConnectionUrl env y)) \<noteq> None \<longrightarrow>
          dropped (events_since (y, s)
            (answered E g (debug env E data q beforeEach afterEach skipStages cb (y, s)))) = 0)
       \<and> (check_data data = Some docs \<and> check_query q = Some stgs
            \<and> on_connect E (fst (buildConnectionUrl env y)) = None \<longrightarrow>
          dropped (events_since (y, s)
            (answered E g (debug env E data q beforeEach afterEach skipStages cb (y, s)))) =
            (if on_insert E docs = None
                \<and> (\<forall>(i, p) \<in> set (enumerate 0 (partitionQuery stgs (doSkipStages g))).
                      \<exists>r. on_aggregate E i p = Inr r)
                \<and> on_dropDatabase E (dropped (trace y)) \<noteq> None
             then 2 else 1)
          \<and> filter is_callback (takeWhile (\<lambda>ev. ev \<noteq> DropDatabase) (events_since (y, s)
              (answered E g (debug env E data q beforeEach afterEach skipStages cb (y, s))))) = [])"
proof -
  let ?sk = "doSkipStages g"
  have evs: "events_since (y, s)
      (answered E g (debug env E data q beforeEach afterEach skipStages cb (y, s))) =
      session_events env E data q ?sk y"
    by (rule debug_events[OF call])
  have none: "check_data data = None \<or> check_query q = None
            \<or> on_connect E (fst (buildConnectionUrl env y)) \<noteq> None \<Longrightarrow>
      dropped (session_events env E data q ?sk y) = 0"
    by (auto simp add: session_events_def split: option.splits)
  have some: "dropped (session_events env E data q ?sk y) =
            (if on_insert E docs = None
                \<and> (\<forall>(i, p) \<in> set (enumerate 0 (partitionQuery stgs ?sk)). \<exists>r. on_aggregate E i p = Inr r)
                \<and> on_dropDatabase E (dropped (trace y)) \<noteq> None
             then 2 else 1)"
    and first: "filter is_callback
        (takeWhile (\<lambda>ev. ev \<noteq> DropDatabase) (session_events env E data q ?sk y)) = []"
    if "check_data data = Some docs" "check_query q = Some stgs"
      "on_connect E (fst (buildConnectionUrl env y)) = None"
  proof -
    show "dropped (session_events env E data q ?sk y) =
            (if on_insert E docs = None
                \<and> (\<forall>(i, p) \<in> set (enumerate 0 (partitionQuery stgs ?sk)). \<exists>r. on_aggregate E i p = Inr r)
                \<and> on_dropDatabase E (dropped (trace y)) \<noteq> None
             then 2 else 1)"
      using that by (simp add: session_events_def tail_events_dropped stage_err_None_iff)
    show "filter is_callback
        (takeWhile (\<lambda>ev. ev \<noteq> DropDatabase) (session_events env E data q ?sk y)) = []"
      using that
      by (simp add: session_events_def tail_events_before_drop
          stage_event_callback[OF stage_events_only] split: option.splits)
  qed
  show ?thesis
    unfolding evs using none some first by simp
qed

theorem dropDatabase_invocations_witness:
  "check_data data0 = Some [JObj [(''n'', JNum 1)], JObj [(''n'', JNum 2)]]
   \<and> check_query query0 = Some [stage_match, stage_limit]
   \<and> check_query (Val JNull :: unit arg) = None
   \<and> on_connect engine_ok (fst (buildConnectionUrl env0 sys0)) = None
   \<and> dropped (events_since (sys0, ())
        (answered engine_ok sys0 (debug env0 engine_ok data0 (Val JNull) (Val JUndefined) (Val JUndefined)
           (Fn ignore) (Val JUndefined) (sys0, ())))) = 0
   \<and> dropped (events_since (sys0, ())
        (answered engine_ok sys0 (debug env0 engine_ok data0 query0 (Val JUndefined) (Val JUndefined)
           (Fn ignore) (Val JUndefined) (sys0, ())))) = 1
   \<and> filter is_callback (takeWhile (\<lambda>ev. ev \<noteq> DropDatabase) (events_since (sys0, ())
        (answered engine_ok sys0 (debug env0 engine_ok data0 query0 (Val JUndefined) (Val JUndefined)
           (Fn ignore) (Val JUndefined) (sys0, ()))))) = []
   \<and> dropped (events_since (sys0, ())
        (answered engine_insert_fails sys0 (debug env0 engine_insert_fails data0 query0 (Val JUndefined)
           (Val JUndefined) (Fn ignore) (Val JUndefined) (sys0, ())))) = 1"
proof -
  have call: "((Fn ignore :: unit callback arg) = Fn ignore \<and> (Val JUndefined :: unit callback arg) = Val JUndefined \<and> \<not> False)
      \<or> ((Fn ignore :: unit callback arg) = Val (JBool False) \<and> (Val JUndefined :: unit callback arg) = Fn ignore)"
    by simp
  have data: "check_data data0 = Some [JObj [(''n'', JNum 1)], JObj [(''n'', JNum 2)]]"
    by (simp add: data0_def)
  have query: "check_query query0 = Some [stage_match, stage_limit]"
    by (simp add: query0_def)
  have bad: "check_query (Val JNull :: unit arg) = None"
    by simp
  have conn: "on_connect engine_ok (fst (buildConnectionUrl env0 sys0)) = None"
    by (simp add: engine_ok_def)
  have conn': "on_connect engine_insert_fails (fst (buildConnectionUrl env0 sys0)) = None"
    by (simp add: engine_insert_fails_def engine_ok_def)
  have drop_ok: "on_dropDatabase engine_ok (dropped (trace sys0)) = None"
    by (simp add: engine_ok_def)
  have seed': "on_insert engine_insert_fails [JObj [(''n'', JNum 1)], JObj [(''n'', JNum 2)]] \<noteq> None"
    by (simp add: engine_insert_fails_def)
  have zero: "dropped (events_since (sys0, ())
        (answered engine_ok sys0 (debug env0 engine_ok data0 (Val JNull) (Val JUndefined) (Val JUndefined)
           (Fn ignore) (Val JUndefined) (sys0, ())))) = 0"
    using dropDatabase_invocations[OF call, where data = data0 and q = "Val JNull"
        and E = engine_ok and g = sys0 and env = env0 and y = sys0 and s = "()"
        and beforeEach = "Val JUndefined" and afterEach = "Val JUndefined"] bad
    by blast
  have once: "dropped (events_since (sys0, ())
        (answered engine_ok sys0 (debug env0 engine_ok data0 query0 (Val JUndefined) (Val JUndefined)
           (Fn ignore) (Val JUndefined) (sys0, ())))) = 1
      \<and> filter is_callback (takeWhile (\<lambda>ev. ev \<noteq> DropDatabase) (events_since (sys0, ())
        (answered engine_ok sys0 (debug env0 engine_ok data0 query0 (Val JUndefined) (Val JUndefined)
           (Fn ignore) (Val JUndefined) (sys0, ()))))) = []"
    using dropDatabase_invocations[OF call, where data = data0 and q = query0
        and E = engine_ok and g = sys0 and env = env0 and y = sys0 and s = "()"
        and beforeEach = "Val JUndefined" and afterEach = "Val JUndefined"
        and docs = "[JObj [(''n'', JNum 1)], JObj [(''n'', JNum 2)]]"
        and stgs = "[stage_match, stage_limit]"]
      data query conn drop_ok
    by simp
  have failed: "dropped (events_since (sys0, ())
        (answered engine_insert_fails sys0 (debug env0 engine_insert_fails data0 query0 (Val JUndefined)
           (Val JUndefined) (Fn ignore) (Val JUndefined) (sys0, ())))) = 1"
    using dropDatabase_invocations[OF call, where data = data0 and q = query0
        and E = engine_insert_fails and g = sys0 and env = env0 and y = sys0 and s = "()"
        and beforeEach = "Val JUndefined" and afterEach = "Val JUndefined"
        and docs = "[JObj [(''n'', JNum 1)], JObj [(''n'', JNum 2)]]"
        and stgs = "[stage_match, stage_limit]"]
      data query conn' seed'
    by simp
  show ?thesis
    using data query bad conn zero once failed by simp
qed

text \<open>
  Claim C2, at a failing input. Seeding fails in a \<open>stages\<close> session. The handler of the
  series starts the cleanup and, for want of a \<open>return\<close>, goes on to \<open>db.close()\<close> and
  \<open>cb()\<close>: the caller is first told that the session succeeded, with an empty output,
  and is handed the error in a second call of the same callback.
\<close>

theorem seeding_failure_reported_as_success_first:
  "snd (snd (undisturbed engine_insert_fails
      (stages env0 engine_insert_fails data0 query0 (Fn record_delivery) (sys0, [])))) =
     [(None, Some []), (Some (Error ''insert failed''), None)]"
proof -
  let ?done = "stages_done record_delivery
    :: (entry option list \<times> (err option \<times> entry option list option) list) callback"
  have docs: "check_data data0 = Some [JObj [(''n'', JNum 1)], JObj [(''n'', JNum 2)]]"
    by (simp add: data0_def)
  have stgs: "check_query query0 = Some [stage_match, stage_limit]"
    by (simp add: query0_def)
  have "snd (answered engine_insert_fails g (debug env0 engine_insert_fails data0 query0
      (Fn stages_beforeEach) (Fn stages_afterEach) (Fn ?done) (Val JUndefined) (sys0, ([], [])))) =
      ?done (Some (Error ''insert failed'')) (?done None ([], []))" for g
    by (simp add: debug_def debug_checked_connecting[OF docs stgs] set_doSkipStages_def
        connected_obs Let_def engine_insert_fails_def engine_ok_def)
  then show ?thesis
    by (simp add: undisturbed_def stages_def enter_def stages_done_def record_delivery_def)
qed

text \<open>
  Claim C3 fails as stated: seeding fails with \<open>insert failed\<close>, the cleanup fails with
  \<open>drop failed\<close>, and the only error the callback ever receives is \<open>drop failed\<close>.
\<close>

theorem cleanup_error_masks_original_counterexample:
  "errors_of (events_since (sys0, ())
     (undisturbed engine_insert_and_drop_fail
        (debug env0 engine_insert_and_drop_fail data0 query0 (Val JUndefined)
           (Val JUndefined) (Fn ignore) (Val JUndefined) (sys0, ())))) = [Error ''drop failed'']"
proof -
  have call: "((Fn ignore :: unit callback arg) = Fn ignore \<and> (Val JUndefined :: unit callback arg) = Val JUndefined \<and> \<not> False)
      \<or> ((Fn ignore :: unit callback arg) = Val (JBool False) \<and> (Val JUndefined :: unit callback arg) = Fn ignore)"
    by simp
  have "errors_of (session_events env0 engine_insert_and_drop_fail data0 query0 False sys0) =
      [Error ''drop failed'']"
    by (simp add: session_events_def tail_events_def cleanup_events_def data0_def query0_def
        engine_insert_and_drop_fail_def engine_insert_fails_def engine_ok_def)
  then show ?thesis
    by (simp add: undisturbed_events[OF call])
qed

text \<open>
  Claim C3, amended. When seeding fails, or the sub-pipeline at some index \<open>k\<close> fails
  after those before it succeeded, with error \<open>e\<close>, the callback receives exactly one
  error: the error of the cleanup \<open>dropDatabase\<close> when that fails too
  (\<open>anotherErr || err\<close>), and \<open>e\<close> only when the cleanup succeeds. The sub-pipelines are
  those of the mode flag found in the globals \<open>g\<close> when the connection answered.
\<close>

theorem cleanup_error_is_reported:
  assumes call: "(skipStages = Fn f \<and> cb = Val JUndefined \<and> \<not> sk) \<or> (skipStages = Val (JBool sk) \<and> cb = Fn f)"
    and data: "check_data data = Some docs"
    and query: "check_query q = Some stgs"
    and conn: "on_connect E (fst (buildConnectionUrl env y)) = None"
    and failed: "on_insert E docs = Some e
      \<or> (on_insert E docs = None \<and> k < length (partitionQuery stgs (doSkipStages g))
          \<and> (\<forall>j<k. \<exists>r. on_aggregate E j (partitionQuery stgs (doSkipStages g) ! j) = Inr r)
          \<and> on_aggregate E k (partitionQuery stgs (doSkipStages g) ! k) = Inl e)"
  shows "errors_of (events_since (y, s)
           (answered E g (debug env E data q beforeEach afterEach skipStages cb (y, s)))) =
         [case on_dropDatabase E (dropped (trace y)) of Some e' \<Rightarrow> e' | None \<Rightarrow> e]"
proof -
  have evs: "events_since (y, s)
      (answered E g (debug env E data q beforeEach afterEach skipStages cb (y, s))) =
      session_events env E data q (doSkipStages g) y"
    by (rule debug_events[OF call])
  let ?ips = "enumerate 0 (partitionQuery stgs (doSkipStages g))"
  have "on_insert E docs = Some e \<or> (on_insert E docs = None \<and> stage_err E ?ips = Some e)"
    using failed stage_err_first_failure[of k "partitionQuery stgs (doSkipStages g)" E 0 e] by auto
  then have "errors_of (tail_events E docs ?ips (dropped (trace y))) =
      [case on_dropDatabase E (dropped (trace y)) of Some a \<Rightarrow> a | None \<Rightarrow> e]"
    by (rule tail_events_errors)
  then show ?thesis
    using data query conn by (simp add: evs session_events_def)
qed

theorem cleanup_error_is_reported_witness:
  "((Fn ignore :: unit callback arg) = Fn ignore \<and> (Val JUndefined :: unit callback arg) = Val JUndefined \<and> \<not> False
      \<or> (Fn ignore :: unit callback arg) = Val (JBool False) \<and> (Val JUndefined :: unit callback arg) = Fn ignore)
   \<and> check_data data0 = Some [JObj [(''n'', JNum 1)], JObj [(''n'', JNum 2)]]
   \<and> check_query query0 = Some [stage_match, stage_limit]
   \<and> on_connect engine_second_stage_fails (fst (buildConnectionUrl env0 sys0)) = None
   \<and> on_insert engine_second_stage_fails [JObj [(''n'', JNum 1)], JObj [(''n'', JNum 2)]] = None
   \<and> 1 < length (partitionQuery [stage_match, stage_limit] False)
   \<and> on_aggregate engine_second_stage_fails 0
        (partitionQuery [stage_match, stage_limit] False ! 0) = Inr (answer 0)
   \<and> on_aggregate engine_second_stage_fails 1 (partitionQuery [stage_match, stage_limit] False ! 1) =
        Inl (Error ''stage failed'')
   \<and> errors_of (events_since (sys0, ())
        (answered engine_second_stage_fails sys0 (debug env0 engine_second_stage_fails data0 query0 (Val JUndefined)
           (Val JUndefined) (Fn ignore) (Val JUndefined) (sys0, ())))) = [Error ''drop failed'']"
proof -
  have call: "((Fn ignore :: unit callback arg) = Fn ignore \<and> (Val JUndefined :: unit callback arg) = Val JUndefined \<and> \<not> False)
      \<or> ((Fn ignore :: unit callback arg) = Val (JBool False) \<and> (Val JUndefined :: unit callback arg) = Fn ignore)"
    by simp
  have data: "check_data data0 = Some [JObj [(''n'', JNum 1)], JObj [(''n'', JNum 2)]]"
    by (simp add: data0_def)
  have query: "check_query query0 = Some [stage_match, stage_limit]"
    by (simp add: query0_def)
  have conn: "on_connect engine_second_stage_fails (fst (buildConnectionUrl env0 sys0)) = None"
    by (simp add: engine_second_stage_fails_def engine_drop_fails_def engine_ok_def)
  have seed: "on_insert engine_second_stage_fails [JObj [(''n'', JNum 1)], JObj [(''n'', JNum 2)]] = None"
    by (simp add: engine_second_stage_fails_def engine_drop_fails_def engine_ok_def)
  have len: "1 < length (partitionQuery [stage_match, stage_limit] False)"
    by (simp add: partitionQuery_def)
  have before: "\<forall>j<1. \<exists>r. on_aggregate engine_second_stage_fails j
          (partitionQuery [stage_match, stage_limit] False ! j) = Inr r"
    by (simp add: engine_second_stage_fails_def)
  have at: "on_aggregate engine_second_stage_fails 1
      (partitionQuery [stage_match, stage_limit] False ! 1) = Inl (Error ''stage failed'')"
    by (simp add: engine_second_stage_fails_def)
  have failed: "on_insert engine_second_stage_fails [JObj [(''n'', JNum 1)], JObj [(''n'', JNum 2)]]
        = Some (Error ''stage failed'')
      \<or> (on_insert engine_second_stage_fails [JObj [(''n'', JNum 1)], JObj [(''n'', JNum 2)]] = None
          \<and> 1 < length (partitionQuery [stage_match, stage_limit] False)
          \<and> (\<forall>j<1. \<exists>r. on_aggregate engine_second_stage_fails j
                (partitionQuery [stage_match, stage_limit] False ! j) = Inr r)
          \<and> on_aggregate engine_second_stage_fails 1
                (partitionQuery [stage_match, stage_limit] False ! 1) = Inl (Error ''stage failed''))"
    using seed len before at by blast
  have drop_fails: "on_dropDatabase engine_second_stage_fails (dropped (trace sys0)) =
      Some (Error ''drop failed'')"
    by (simp add: engine_second_stage_fails_def engine_drop_fails_def)
  have failed': "on_insert engine_second_stage_fails [JObj [(''n'', JNum 1)], JObj [(''n'', JNum 2)]]
        = Some (Error ''stage failed'')
      \<or> (on_insert engine_second_stage_fails [JObj [(''n'', JNum 1)], JObj [(''n'', JNum 2)]] = None
          \<and> 1 < length (partitionQuery [stage_match, stage_limit] (doSkipStages sys0))
          \<and> (\<forall>j<1. \<exists>r. on_aggregate engine_second_stage_fails j
                (partitionQuery [stage_match, stage_limit] (doSkipStages sys0) ! j) = Inr r)
          \<and> on_aggregate engine_second_stage_fails 1
                (partitionQuery [stage_match, stage_limit] (doSkipStages sys0) ! 1) =
              Inl (Error ''stage failed''))"
    using failed by (simp add: sys0_def)
  have first: "on_aggregate engine_second_stage_fails 0
      (partitionQuery [stage_match, stage_limit] False ! 0) = Inr (answer 0)"
    by (simp add: engine_second_stage_fails_def)
  show ?thesis
    using cleanup_error_is_reported[OF call data query conn failed', where s = "()"
        and beforeEach = "Val JUndefined" and afterEach = "Val JUndefined"]
      data query conn seed len first at drop_fails
    by simp
qed

text \<open>
  Claim C4, at a failing input. \<open>stages\<close> is called with two stages, and \<open>exec\<close> is
  called before the connection of that session has answered. \<open>exec\<close> assigns
  \<open>doSkipStages = true\<close>; the session of \<open>stages\<close> reads the flag when its connection
  answers, runs the whole pipeline once, and delivers one entry, which holds both stages.
\<close>

theorem stages_delivers_one_entry_after_exec:
  "snd (answered engine_ok (after_exec_call (fst (world_of stages_call))) stages_call) =
     ([Some (Entry (Some [stage_match, stage_limit]) (Some (answer 0)))],
      [(None, Some [Some (Entry (Some [stage_match, stage_limit]) (Some (answer 0)))])])"
proof -
  let ?done = "stages_done record_delivery
    :: (entry option list \<times> (err option \<times> entry option list option) list) callback"
  define g where "g = after_exec_call (fst (world_of stages_call))"
  have call: "((Fn ?done :: (entry option list \<times> (err option \<times> entry option list option) list) callback arg) = Fn ?done
        \<and> (Val JUndefined :: (entry option list \<times> (err option \<times> entry option list option) list) callback arg) = Val JUndefined \<and> \<not> False)
      \<or> ((Fn ?done :: (entry option list \<times> (err option \<times> entry option list option) list) callback arg) = Val (JBool False)
        \<and> (Val JUndefined :: (entry option list \<times> (err option \<times> entry option list option) list) callback arg) = Fn ?done)"
    by simp
  have flag: "doSkipStages g = True"
    unfolding g_def after_exec_call_def by (rule exec_flag)
  have parts: "enumerate 0 (partitionQuery [stage_match, stage_limit] (doSkipStages g)) =
      [(0, [stage_match, stage_limit])]"
    by (simp add: flag partitionQuery_def)
  have "snd (answered engine_ok g (debug env0 engine_ok data0 query0 (Fn stages_beforeEach)
      (Fn stages_afterEach) (Fn ?done) (Val JUndefined) (sys0, ([], [])))) =
      ?done None (stage_obs engine_ok (hook_or_noop (Fn stages_beforeEach))
        (hook_or_noop (Fn stages_afterEach))
        (enumerate 0 (partitionQuery [stage_match, stage_limit] (doSkipStages g))) ([], []))"
    by (rule debug_obs_ok[OF call data0_ok query0_ok])
      (simp_all add: parts engine_ok_def sys0_def)
  then have "snd (answered engine_ok g stages_call) =
     ([Some (Entry (Some [stage_match, stage_limit]) (Some (answer 0)))],
      [(None, Some [Some (Entry (Some [stage_match, stage_limit]) (Some (answer 0)))])])"
    by (simp add: stages_call_def stages_def enter_def parts engine_ok_def stages_done_def
        stages_beforeEach_def stages_afterEach_def js_get_def js_put_def record_delivery_def)
  then show ?thesis
    unfolding g_def .
qed

text \<open>
  Claim C5 fails as stated: two sessions of one debugger, started at different times,
  connect to the same database. The name generated for the first is kept in
  \<open>my.debugDatabaseName\<close> and the second reuses it, although a name generated at its own
  start would have been another one.
\<close>

theorem sessions_share_database_counterexample:
  "hd (events_since (sys0, ()) first_session) =
     Connect ''mongodb://localhost:27017/mongo_aggregation_debugger_7_1000''
   \<and> hd (events_since first_session second_session) =
     Connect ''mongodb://localhost:27017/mongo_aggregation_debugger_7_1000''
   \<and> generateDatabaseName env1 = ''mongo_aggregation_debugger_7_2000''"
proof -
  have call: "((Fn ignore :: unit callback arg) = Fn ignore \<and> (Val JUndefined :: unit callback arg) = Val JUndefined \<and> \<not> False)
      \<or> ((Fn ignore :: unit callback arg) = Val (JBool False) \<and> (Val JUndefined :: unit callback arg) = Fn ignore)"
    by simp
  have first: "hd (events_since (sys0, ()) first_session) =
      Connect ''mongodb://localhost:27017/mongo_aggregation_debugger_7_1000''"
    unfolding first_session_def undisturbed_events[OF call]
    using session_events_hd[OF data0_ok query0_ok, of env0 engine_ok False sys0]
    by (simp add: url_sys0)
  have "debugDatabaseName (fst first_session) = Some ''mongo_aggregation_debugger_7_1000''"
    unfolding first_session_def undisturbed_def
    by (simp add: debug_name_answered[OF call data0_ok query0_ok]
        debug_name_started[OF call data0_ok query0_ok] name_sys0)
  moreover have "mongoParams (fst first_session) = defaultMongoParams"
    unfolding first_session_def undisturbed_def
    by (simp add: debug_params_answered[OF call data0_ok query0_ok]
        debug_params_started[OF call] sys0_def)
  ultimately have url2: "fst (buildConnectionUrl env1 (fst first_session)) =
      ''mongodb://localhost:27017/mongo_aggregation_debugger_7_1000''"
    by (simp add: buildConnectionUrl_def Let_def defaultMongoParams_def present_def
        show_nat_digit show_nat_more digit_def)
  have pair: "first_session = (fst first_session, ())"
    by (simp add: prod_eq_iff)
  have "events_since (fst first_session, ())
      (undisturbed engine_ok (debug env1 engine_ok data0 query0 (Val JUndefined) (Val JUndefined)
         (Fn ignore) (Val JUndefined) (fst first_session, ()))) =
      session_events env1 engine_ok data0 query0 False (fst first_session)"
    by (rule undisturbed_events[OF call])
  then have "events_since first_session second_session =
      session_events env1 engine_ok data0 query0 False (fst first_session)"
    unfolding second_session_def using pair by simp
  then have second: "hd (events_since first_session second_session) =
      Connect ''mongodb://localhost:27017/mongo_aggregation_debugger_7_1000''"
    using session_events_hd[OF data0_ok query0_ok, of env1 engine_ok False "fst first_session"]
    by (simp add: url2)
  show ?thesis
    using first second name_env1 by simp
qed

text \<open>
  Claim C5, amended. A call that passes validation asks for a connection to the url
  made of the parameters of the debugger and of the name of the store; no other event
  happens before the connection answers. The name is the one found in
  \<open>my.debugDatabaseName\<close> when there is one, whatever the process id and the clock of
  the session; it is generated from the process id and the millisecond clock only when
  none is found, and it is left behind for the calls that follow. Two generated names
  are equal only if both the process id and the clock reading are equal. A call of the
  factory \<open>mongoAggregationDebugger\<close> forgets the name.
\<close>

theorem session_connects_to_kept_name:
  assumes call: "(skipStages = Fn f \<and> cb = Val JUndefined \<and> \<not> sk) \<or> (skipStages = Val (JBool sk) \<and> cb = Fn f)"
    and data: "check_data data = Some docs"
    and query: "check_query q = Some stgs"
  shows "(\<exists>name url k w'.
            name = (case debugDatabaseName y of
                      None \<Rightarrow> generateDatabaseName env
                    | Some n \<Rightarrow> if n = [] then generateDatabaseName env else n)
            \<and> url = ''mongodb://''
                @ (if present (username (mongoParams y)) \<and> present (password (mongoParams y))
                   then the (username (mongoParams y)) @ '':'' @ the (password (mongoParams y)) @ ''@''
                   else [])
                @ host (mongoParams y)
                @ (if port (mongoParams y) \<noteq> 0 then '':'' @ show_nat (port (mongoParams y)) else [])
                @ ''/'' @ name
            \<and> debug env E data q beforeEach afterEach skipStages cb (y, s) = Connecting url k w'
            \<and> events_since (y, s) w' = [Connect url]
            \<and> debugDatabaseName (fst w') = Some name)
       \<and> (generateDatabaseName env = generateDatabaseName env' \<longleftrightarrow>
            pid env = pid env' \<and> now env = now env')
       \<and> debugDatabaseName (mongoAggregationDebugger gp y) = None"
proof -
  let ?name = "case debugDatabaseName y of
                      None \<Rightarrow> generateDatabaseName env
                    | Some n \<Rightarrow> if n = [] then generateDatabaseName env else n"
  let ?url = "''mongodb://''
                @ (if present (username (mongoParams y)) \<and> present (password (mongoParams y))
                   then the (username (mongoParams y)) @ '':'' @ the (password (mongoParams y)) @ ''@''
                   else [])
                @ host (mongoParams y)
                @ (if port (mongoParams y) \<noteq> 0 then '':'' @ show_nat (port (mongoParams y)) else [])
                @ ''/'' @ ?name"
  let ?k = "connected E docs stgs (hook_or_noop beforeEach) (hook_or_noop afterEach) f"
  let ?w = "((snd (buildConnectionUrl env y))\<lparr>doSkipStages := sk,
      trace := trace y @ [Connect (fst (buildConnectionUrl env y))]\<rparr>, s)"
  have pick: "(if present (debugDatabaseName y) then the (debugDatabaseName y)
      else generateDatabaseName env) = ?name"
    by (cases "debugDatabaseName y") (simp_all add: present_def)
  have url: "fst (buildConnectionUrl env y) = ?url"
    by (simp add: buildConnectionUrl_def Let_def pick[symmetric])
  have name: "debugDatabaseName (snd (buildConnectionUrl env y)) = Some ?name"
    by (simp add: buildConnectionUrl_def Let_def pick[symmetric])
  have snd_flag: "snd (buildConnectionUrl env (y\<lparr>doSkipStages := sk\<rparr>)) =
      (snd (buildConnectionUrl env y))\<lparr>doSkipStages := sk\<rparr>"
    by (simp add: buildConnectionUrl_def Let_def)
  have "debug env E data q beforeEach afterEach skipStages cb (y, s) =
      Connecting (fst (buildConnectionUrl env y)) ?k ?w"
    unfolding debug_shape[OF call]
    by (simp add: debug_checked_connecting[OF data query] set_doSkipStages_def
        buildConnectionUrl_flag snd_flag)
  then have start: "debug env E data q beforeEach afterEach skipStages cb (y, s) =
      Connecting ?url ?k ?w"
    by (simp only: url)
  have evs: "events_since (y, s) ?w = [Connect ?url]"
    by (simp add: events_since_def url)
  have kept: "debugDatabaseName (fst ?w) = Some ?name"
    using name by simp
  have first: "\<exists>name url k w'.
            name = ?name
            \<and> url = ''mongodb://''
                @ (if present (username (mongoParams y)) \<and> present (password (mongoParams y))
                   then the (username (mongoParams y)) @ '':'' @ the (password (mongoParams y)) @ ''@''
                   else [])
                @ host (mongoParams y)
                @ (if port (mongoParams y) \<noteq> 0 then '':'' @ show_nat (port (mongoParams y)) else [])
                @ ''/'' @ name
            \<and> debug env E data q beforeEach afterEach skipStages cb (y, s) = Connecting url k w'
            \<and> events_since (y, s) w' = [Connect url]
            \<and> debugDatabaseName (fst w') = Some name"
    by (rule exI[of _ ?name], rule exI[of _ ?url], rule exI[of _ ?k], rule exI[of _ ?w])
      (intro conjI refl start evs kept)
  have third: "debugDatabaseName (mongoAggregationDebugger gp y) = None"
    by (simp add: mongoAggregationDebugger_def)
  show ?thesis
    using first generateDatabaseName_inj[of env env'] third by (intro conjI)
qed

theorem session_connects_to_kept_name_witness:
  "(((Fn ignore :: unit callback arg) = Fn ignore \<and> (Val JUndefined :: unit callback arg) = Val JUndefined \<and> \<not> False)
      \<or> ((Fn ignore :: unit callback arg) = Val (JBool False) \<and> (Val JUndefined :: unit callback arg) = Fn ignore))
   \<and> check_data data0 = Some [JObj [(''n'', JNum 1)], JObj [(''n'', JNum 2)]]
   \<and> check_query query0 = Some [stage_match, stage_limit]
   \<and> (\<exists>k w'. debug env0 engine_ok data0 query0 (Val JUndefined) (Val JUndefined) (Fn ignore)
                   (Val JUndefined) (sys0, ()) =
                 Connecting ''mongodb://localhost:27017/mongo_aggregation_debugger_7_1000'' k w'
               \<and> events_since (sys0, ()) w' =
                 [Connect ''mongodb://localhost:27017/mongo_aggregation_debugger_7_1000'']
               \<and> debugDatabaseName (fst w') = Some ''mongo_aggregation_debugger_7_1000'')
   \<and> (\<exists>k w'. debug env1 engine_ok data0 query0 (Val JUndefined) (Val JUndefined) (Fn ignore)
                   (Val JUndefined) (sys1, ()) =
                 Connecting ''mongodb://localhost:27017/mongo_aggregation_debugger_7_1000'' k w'
               \<and> events_since (sys1, ()) w' =
                 [Connect ''mongodb://localhost:27017/mongo_aggregation_debugger_7_1000'']
               \<and> debugDatabaseName (fst w') = Some ''mongo_aggregation_debugger_7_1000'')
   \<and> generateDatabaseName env1 \<noteq> generateDatabaseName env0
   \<and> debugDatabaseName
        (mongoAggregationDebugger
           \<lparr>given_host = None, given_port = None, given_username = None, given_password = None\<rparr>
           sys1) = None"
proof -
  have call: "((Fn ignore :: unit callback arg) = Fn ignore \<and> (Val JUndefined :: unit callback arg) = Val JUndefined \<and> \<not> False)
      \<or> ((Fn ignore :: unit callback arg) = Val (JBool False) \<and> (Val JUndefined :: unit callback arg) = Fn ignore)"
    by simp
  have clock: "\<not> (pid env1 = pid env0 \<and> now env1 = now env0)"
    by (simp add: env0_def env1_def)
  have port: "show_nat 27017 = ''27017''"
    by (simp add: show_nat_digit show_nat_more digit_def)
  have fresh: "generateDatabaseName env0 = ''mongo_aggregation_debugger_7_1000''"
    by (simp add: env0_def generateDatabaseName_def show_nat_digit show_nat_more digit_def)
  note inst0 = session_connects_to_kept_name[OF call data0_ok query0_ok, where env = env0
      and env' = env1 and E = engine_ok and beforeEach = "Val JUndefined"
      and afterEach = "Val JUndefined" and y = sys0 and s = "()"]
  note inst1 = session_connects_to_kept_name[OF call data0_ok query0_ok, where env = env1
      and env' = env0 and E = engine_ok and beforeEach = "Val JUndefined"
      and afterEach = "Val JUndefined" and y = sys1 and s = "()"
      and gp = "\<lparr>given_host = None, given_port = None, given_username = None, given_password = None\<rparr>"]
  have first: "\<exists>k w'. debug env0 engine_ok data0 query0 (Val JUndefined) (Val JUndefined) (Fn ignore)
                   (Val JUndefined) (sys0, ()) =
                 Connecting ''mongodb://localhost:27017/mongo_aggregation_debugger_7_1000'' k w'
               \<and> events_since (sys0, ()) w' =
                 [Connect ''mongodb://localhost:27017/mongo_aggregation_debugger_7_1000'']
               \<and> debugDatabaseName (fst w') = Some ''mongo_aggregation_debugger_7_1000''"
    using inst0
    by (simp add: sys0_def defaultMongoParams_def present_def port fresh)
  have second: "\<exists>k w'. debug env1 engine_ok data0 query0 (Val JUndefined) (Val JUndefined) (Fn ignore)
                   (Val JUndefined) (sys1, ()) =
                 Connecting ''mongodb://localhost:27017/mongo_aggregation_debugger_7_1000'' k w'
               \<and> events_since (sys1, ()) w' =
                 [Connect ''mongodb://localhost:27017/mongo_aggregation_debugger_7_1000'']
               \<and> debugDatabaseName (fst w') = Some ''mongo_aggregation_debugger_7_1000''"
    using inst1
    by (simp add: sys1_def sys0_def defaultMongoParams_def present_def port)
  show ?thesis
    using first second inst1 clock call data0_ok query0_ok by simp
qed

text \<open>
  Claim C6, at a failing input. \<open>exec\<close> is called with two stages, and \<open>stages\<close> is
  called before the connection of that session has answered. \<open>stages\<close> assigns
  \<open>doSkipStages = false\<close>; the session of \<open>exec\<close> reads the flag when its connection
  answers and submits one sub-pipeline per stage.
\<close>

theorem exec_submits_every_prefix_after_stages:
  "filter is_aggregate
     (events_since (sys0, [] :: (err option \<times> jsval) list)
        (answered engine_ok (after_stages_call (fst (world_of exec_call))) exec_call)) =
     [Aggregate [stage_match], Aggregate [stage_match, stage_limit]]"
proof -
  let ?done = "exec_done record_delivery :: (jsval \<times> (err option \<times> jsval) list) callback"
  define g where "g = after_stages_call (fst (world_of exec_call))"
  have call: "((Val (JBool True) :: (jsval \<times> (err option \<times> jsval) list) callback arg) = Fn ?done
        \<and> (Fn ?done :: (jsval \<times> (err option \<times> jsval) list) callback arg) = Val JUndefined \<and> \<not> True)
      \<or> ((Val (JBool True) :: (jsval \<times> (err option \<times> jsval) list) callback arg) = Val (JBool True)
        \<and> (Fn ?done :: (jsval \<times> (err option \<times> jsval) list) callback arg) = Fn ?done)"
    by simp
  have flag: "doSkipStages g = False"
    unfolding g_def after_stages_call_def by (rule stages_flag)
  have "events_since (sys0, (JUndefined, [] :: (err option \<times> jsval) list))
      (answered engine_ok g (debug env0 engine_ok data0 query0 (Val JNull) (Fn exec_afterEach)
         (Val (JBool True)) (Fn ?done) (sys0, (JUndefined, [])))) =
      session_events env0 engine_ok data0 query0 (doSkipStages g) sys0"
    by (rule debug_events[OF call])
  moreover have "filter is_aggregate (session_events env0 engine_ok data0 query0 False sys0) =
      [Aggregate [stage_match], Aggregate [stage_match, stage_limit]]"
    by (simp add: session_events_def data0_ok query0_ok tail_events_def engine_ok_def
        partitionQuery_def)
  ultimately have "filter is_aggregate
     (events_since (sys0, [] :: (err option \<times> jsval) list)
        (answered engine_ok g exec_call)) =
     [Aggregate [stage_match], Aggregate [stage_match, stage_limit]]"
    by (simp add: exec_call_def exec_def enter_def flag events_since_def)
  then show ?thesis
    unfolding g_def .
qed

text \<open>
  Claim C7, at a failing input. \<open>debug\<close> is called in cumulative mode with two stages
  and with hooks that write down how they are called, and \<open>exec\<close> is called before the
  connection has answered. The hooks are called once each: \<open>beforeEach\<close> with the whole
  pipeline and index \<open>0\<close>, \<open>afterEach\<close> with the result of the whole pipeline. The second
  pair of calls that the claim lists never happens, and no hook sees the first stage alone.
\<close>

theorem hooks_called_once_after_exec:
  "snd (answered engine_ok (after_exec_call (fst (world_of debug_call))) debug_call) =
     [BeforeEach [stage_match, stage_limit] 0, AfterEach (answer 0) 0]
   \<and> filter stage_event
       (events_since (sys0, [] :: event list)
          (answered engine_ok (after_exec_call (fst (world_of debug_call))) debug_call)) =
     [BeforeEach [stage_match, stage_limit] 0, Aggregate [stage_match, stage_limit],
      AfterEach (answer 0) 0]"
proof -
  define g where "g = after_exec_call (fst (world_of debug_call))"
  have call: "((Val (JBool False) :: event list callback arg) = Fn ignore
        \<and> (Fn ignore :: event list callback arg) = Val JUndefined \<and> \<not> False)
      \<or> ((Val (JBool False) :: event list callback arg) = Val (JBool False)
        \<and> (Fn ignore :: event list callback arg) = Fn ignore)"
    by simp
  have flag: "doSkipStages g = True"
    unfolding g_def after_exec_call_def by (rule exec_flag)
  have parts: "enumerate 0 (partitionQuery [stage_match, stage_limit] (doSkipStages g)) =
      [(0, [stage_match, stage_limit])]"
    by (simp add: flag partitionQuery_def)
  have "snd (answered engine_ok g debug_call) =
      ignore None (stage_obs engine_ok (hook_or_noop (Fn record_before))
        (hook_or_noop (Fn record_after))
        (enumerate 0 (partitionQuery [stage_match, stage_limit] (doSkipStages g))) [])"
    unfolding debug_call_def
    by (rule debug_obs_ok[OF call data0_ok query0_ok])
      (simp_all add: parts engine_ok_def sys0_def)
  then have first: "snd (answered engine_ok g debug_call) =
      [BeforeEach [stage_match, stage_limit] 0, AfterEach (answer 0) 0]"
    by (simp add: parts engine_ok_def ignore_def record_before_def record_after_def)
  have "events_since (sys0, [] :: event list) (answered engine_ok g debug_call) =
      session_events env0 engine_ok data0 query0 (doSkipStages g) sys0"
    unfolding debug_call_def by (rule debug_events[OF call])
  moreover have "filter stage_event (session_events env0 engine_ok data0 query0 True sys0) =
      [BeforeEach [stage_match, stage_limit] 0, Aggregate [stage_match, stage_limit],
       AfterEach (answer 0) 0]"
    by (simp add: session_events_def data0_ok query0_ok tail_events_def engine_ok_def
        partitionQuery_def)
  ultimately have "filter stage_event
       (events_since (sys0, [] :: event list) (answered engine_ok g debug_call)) =
     [BeforeEach [stage_match, stage_limit] 0, Aggregate [stage_match, stage_limit],
      AfterEach (answer 0) 0]"
    by (simp add: flag)
  with first show ?thesis
    unfolding g_def by simp
qed

text \<open>
  Claim C8 fails as stated: an array is accepted whatever its elements are. The array
  \<open>[1, 'x', null]\<close> holds no record; the call is not rejected, the connection is asked
  for, and the store is seeded with the array.
\<close>

theorem array_of_non_records_is_seeded_counterexample:
  "take 2 (events_since (sys0, ())
     (undisturbed engine_ok
        (debug env0 engine_ok (Val (JArr [JNum 1, JStr ''x'', JNull])) query0 (Val JUndefined)
           (Val JUndefined) (Fn ignore) (Val JUndefined) (sys0, ())))) =
     [Connect ''mongodb://localhost:27017/mongo_aggregation_debugger_7_1000'',
      Insert [JNum 1, JStr ''x'', JNull]]"
proof -
  have call: "((Fn ignore :: unit callback arg) = Fn ignore \<and> (Val JUndefined :: unit callback arg) = Val JUndefined \<and> \<not> False)
      \<or> ((Fn ignore :: unit callback arg) = Val (JBool False) \<and> (Val JUndefined :: unit callback arg) = Fn ignore)"
    by simp
  have "take 2 (session_events env0 engine_ok (Val (JArr [JNum 1, JStr ''x'', JNull])) query0
      False sys0) =
      [Connect (fst (buildConnectionUrl env0 sys0)), Insert [JNum 1, JStr ''x'', JNull]]"
    by (simp add: session_events_def query0_ok tail_events_def cleanup_events_def engine_ok_def
        split: option.splits)
  then show ?thesis
    by (simp add: undisturbed_events[OF call] url_sys0)
qed

text \<open>
  Claim C8, amended. When \<open>debug\<close> is called the way the entry points call it and the
  records argument is neither an array nor an object, the call returns after calling the
  callback once with the error \<open>Invalid `data`\<close>; when the records are an array or an
  object and the pipeline is not an array, with the error \<open>Invalid `query`\<close>. In both
  cases no connection is asked for, now or later, no database name is generated and the
  connection parameters are left as they were. An array is accepted as it is, whatever
  its elements, and a single object is wrapped into a one-element array: that is what
  the store is seeded with once the connection is open.
\<close>

theorem validation_precedes_acquisition:
  assumes call: "(skipStages = Fn f \<and> cb = Val JUndefined \<and> \<not> sk) \<or> (skipStages = Val (JBool sk) \<and> cb = Fn f)"
  shows "((\<forall>xs. data \<noteq> Val (JArr xs)) \<and> (\<forall>kvs. data \<noteq> Val (JObj kvs)) \<longrightarrow>
            (\<exists>w'. debug env E data q beforeEach afterEach skipStages cb (y, s) = Returned w'
               \<and> answered E g (Returned w') = w'
               \<and> events_since (y, s) w' = [Callback (Some (Error ''Invalid `data`''))]
               \<and> debugDatabaseName (fst w') = debugDatabaseName y
               \<and> mongoParams (fst w') = mongoParams y
               \<and> snd w' = f (Some (Error ''Invalid `data`'')) s))
       \<and> (((\<exists>xs. data = Val (JArr xs)) \<or> (\<exists>kvs. data = Val (JObj kvs))) \<and> (\<forall>xs. q \<noteq> Val (JArr xs)) \<longrightarrow>
            (\<exists>w'. debug env E data q beforeEach afterEach skipStages cb (y, s) = Returned w'
               \<and> answered E g (Returned w') = w'
               \<and> events_since (y, s) w' = [Callback (Some (Error ''Invalid `query`''))]
               \<and> debugDatabaseName (fst w') = debugDatabaseName y
               \<and> mongoParams (fst w') = mongoParams y
               \<and> snd w' = f (Some (Error ''Invalid `query`'')) s))
       \<and> (data = Val (JArr xs) \<and> q = Val (JArr stgs)
            \<and> on_connect E (fst (buildConnectionUrl env y)) = None \<longrightarrow>
            take 2 (events_since (y, s)
              (answered E g (debug env E data q beforeEach afterEach skipStages cb (y, s)))) =
              [Connect (fst (buildConnectionUrl env y)), Insert xs])
       \<and> (data = Val (JObj kvs) \<and> q = Val (JArr stgs)
            \<and> on_connect E (fst (buildConnectionUrl env y)) = None \<longrightarrow>
            take 2 (events_since (y, s)
              (answered E g (debug env E data q beforeEach afterEach skipStages cb (y, s)))) =
              [Connect (fst (buildConnectionUrl env y)), Insert [JObj kvs]])"
proof -
  have rejected: "\<exists>w'. debug env E data q beforeEach afterEach skipStages cb (y, s) = Returned w'
               \<and> answered E g (Returned w') = w'
               \<and> events_since (y, s) w' = [Callback (Some e)]
               \<and> debugDatabaseName (fst w') = debugDatabaseName y
               \<and> mongoParams (fst w') = mongoParams y
               \<and> snd w' = f (Some e) s"
    if "check_data data = None \<and> e = Error ''Invalid `data`''
      \<or> check_data data \<noteq> None \<and> check_query q = None \<and> e = Error ''Invalid `query`''" for e
    unfolding debug_rejected[OF call that]
    by (simp add: events_since_def)
  have first: "\<exists>w'. debug env E data q beforeEach afterEach skipStages cb (y, s) = Returned w'
               \<and> answered E g (Returned w') = w'
               \<and> events_since (y, s) w' = [Callback (Some (Error ''Invalid `data`''))]
               \<and> debugDatabaseName (fst w') = debugDatabaseName y
               \<and> mongoParams (fst w') = mongoParams y
               \<and> snd w' = f (Some (Error ''Invalid `data`'')) s"
    if "(\<forall>xs. data \<noteq> Val (JArr xs)) \<and> (\<forall>kvs. data \<noteq> Val (JObj kvs))"
  proof -
    from that have "check_data data = None"
      by (simp add: check_data_None_iff)
    then show ?thesis
      by (intro rejected) simp
  qed
  have second: "\<exists>w'. debug env E data q beforeEach afterEach skipStages cb (y, s) = Returned w'
               \<and> answered E g (Returned w') = w'
               \<and> events_since (y, s) w' = [Callback (Some (Error ''Invalid `query`''))]
               \<and> debugDatabaseName (fst w') = debugDatabaseName y
               \<and> mongoParams (fst w') = mongoParams y
               \<and> snd w' = f (Some (Error ''Invalid `query`'')) s"
    if "((\<exists>xs. data = Val (JArr xs)) \<or> (\<exists>kvs. data = Val (JObj kvs))) \<and> (\<forall>xs. q \<noteq> Val (JArr xs))"
  proof -
    from that have "check_data data \<noteq> None" and "check_query q = None"
      by (auto simp add: check_data_None_iff check_query_None_iff)
    then show ?thesis
      by (intro rejected) simp
  qed
  have seeded: "take 2 (events_since (y, s)
      (answered E g (debug env E data q beforeEach afterEach skipStages cb (y, s)))) =
      [Connect (fst (buildConnectionUrl env y)), Insert docs]"
    if "check_data data = Some docs" and "q = Val (JArr stgs)"
      and "on_connect E (fst (buildConnectionUrl env y)) = None" for docs
  proof -
    have "take 2 (session_events env E data q (doSkipStages g) y) =
        [Connect (fst (buildConnectionUrl env y)), Insert docs]"
      using that
      by (simp add: session_events_def tail_events_def cleanup_events_def split: option.splits)
    then show ?thesis
      by (simp add: debug_events[OF call])
  qed
  have third: "take 2 (events_since (y, s)
      (answered E g (debug env E data q beforeEach afterEach skipStages cb (y, s)))) =
      [Connect (fst (buildConnectionUrl env y)), Insert xs]"
    if "data = Val (JArr xs) \<and> q = Val (JArr stgs)
      \<and> on_connect E (fst (buildConnectionUrl env y)) = None"
    using that by (intro seeded) simp_all
  have fourth: "take 2 (events_since (y, s)
      (answered E g (debug env E data q beforeEach afterEach skipStages cb (y, s)))) =
      [Connect (fst (buildConnectionUrl env y)), Insert [JObj kvs]]"
    if "data = Val (JObj kvs) \<and> q = Val (JArr stgs)
      \<and> on_connect E (fst (buildConnectionUrl env y)) = None"
    using that by (intro seeded) simp_all
  show ?thesis
    by (intro conjI impI) (erule first, erule second, erule third, erule fourth)
qed

theorem validation_precedes_acquisition_witness:
  "(\<exists>w'. debug env0 engine_ok (Val (JStr ''records'')) query0 (Val JUndefined) (Val JUndefined)
            (Fn ignore) (Val JUndefined) (sys0, ()) = Returned w'
        \<and> answered engine_ok sys0 (Returned w') = w'
        \<and> events_since (sys0, ()) w' = [Callback (Some (Error ''Invalid `data`''))]
        \<and> debugDatabaseName (fst w') = debugDatabaseName sys0
        \<and> mongoParams (fst w') = mongoParams sys0
        \<and> snd w' = ignore (Some (Error ''Invalid `data`'')) ())
   \<and> (\<exists>w'. debug env0 engine_ok data0 (Val JNull) (Val JUndefined) (Val JUndefined)
            (Fn ignore) (Val JUndefined) (sys0, ()) = Returned w'
        \<and> answered engine_ok sys0 (Returned w') = w'
        \<and> events_since (sys0, ()) w' = [Callback (Some (Error ''Invalid `query`''))]
        \<and> debugDatabaseName (fst w') = debugDatabaseName sys0
        \<and> mongoParams (fst w') = mongoParams sys0
        \<and> snd w' = ignore (Some (Error ''Invalid `query`'')) ())
   \<and> take 2 (events_since (sys0, ())
        (answered engine_ok sys0 (debug env0 engine_ok data0 query0
           (Val JUndefined) (Val JUndefined) (Fn ignore) (Val JUndefined) (sys0, ())))) =
        [Connect ''mongodb://localhost:27017/mongo_aggregation_debugger_7_1000'',
         Insert [JObj [(''n'', JNum 1)], JObj [(''n'', JNum 2)]]]
   \<and> take 2 (events_since (sys0, ())
        (answered engine_ok sys0 (debug env0 engine_ok (Val (JObj [(''n'', JNum 1)])) query0
           (Val JUndefined) (Val JUndefined) (Fn ignore) (Val JUndefined) (sys0, ())))) =
        [Connect ''mongodb://localhost:27017/mongo_aggregation_debugger_7_1000'',
         Insert [JObj [(''n'', JNum 1)]]]"
proof -
  have call: "((Fn ignore :: unit callback arg) = Fn ignore \<and> (Val JUndefined :: unit callback arg) = Val JUndefined \<and> \<not> False)
      \<or> ((Fn ignore :: unit callback arg) = Val (JBool False) \<and> (Val JUndefined :: unit callback arg) = Fn ignore)"
    by simp
  have bad: "(\<forall>xs. (Val (JStr ''records'') :: unit arg) \<noteq> Val (JArr xs))
      \<and> (\<forall>kvs. (Val (JStr ''records'') :: unit arg) \<noteq> Val (JObj kvs))"
    by simp
  have badq: "((\<exists>xs. data0 = Val (JArr xs)) \<or> (\<exists>kvs. data0 = Val (JObj kvs)))
      \<and> (\<forall>xs. (Val JNull :: unit arg) \<noteq> Val (JArr xs))"
    by (simp add: data0_def)
  have many: "data0 = Val (JArr [JObj [(''n'', JNum 1)], JObj [(''n'', JNum 2)]])
      \<and> query0 = Val (JArr [stage_match, stage_limit])
      \<and> on_connect engine_ok (fst (buildConnectionUrl env0 sys0)) = None"
    by (simp add: data0_def query0_def engine_ok_def)
  have single: "(Val (JObj [(''n'', JNum 1)]) :: unit arg) = Val (JObj [(''n'', JNum 1)])
      \<and> query0 = Val (JArr [stage_match, stage_limit])
      \<and> on_connect engine_ok (fst (buildConnectionUrl env0 sys0)) = None"
    by (simp add: query0_def engine_ok_def)
  note r1 = validation_precedes_acquisition[OF call, where data = "Val (JStr ''records'')"
        and q = query0 and env = env0 and E = engine_ok and g = sys0
        and beforeEach = "Val JUndefined" and afterEach = "Val JUndefined" and y = sys0
        and s = "()", THEN conjunct1, rule_format, OF bad]
  note r2 = validation_precedes_acquisition[OF call, where data = data0
        and q = "Val JNull" and env = env0 and E = engine_ok and g = sys0
        and beforeEach = "Val JUndefined" and afterEach = "Val JUndefined" and y = sys0
        and s = "()", THEN conjunct2, THEN conjunct1, rule_format, OF badq]
  note r3 = validation_precedes_acquisition[OF call, where data = data0
        and q = query0 and env = env0 and E = engine_ok and g = sys0
        and beforeEach = "Val JUndefined" and afterEach = "Val JUndefined" and y = sys0
        and s = "()" and xs = "[JObj [(''n'', JNum 1)], JObj [(''n'', JNum 2)]]"
        and stgs = "[stage_match, stage_limit]",
        THEN conjunct2, THEN conjunct2, THEN conjunct1, rule_format, OF many]
  note r4 = validation_precedes_acquisition[OF call, where data = "Val (JObj [(''n'', JNum 1)])"
        and q = query0 and env = env0 and E = engine_ok and g = sys0
        and beforeEach = "Val JUndefined" and afterEach = "Val JUndefined" and y = sys0
        and s = "()" and kvs = "[(''n'', JNum 1)]" and stgs = "[stage_match, stage_limit]",
        THEN conjunct2, THEN conjunct2, THEN conjunct2, rule_format, OF single]
  show ?thesis
    by (intro conjI) (rule r1, rule r2, rule r3[unfolded url_sys0], rule r4[unfolded url_sys0])
qed

text \<open>
  Claim C9. A \<open>beforeEach\<close> or \<open>afterEach\<close> argument that is not a function is replaced
  by a function that does nothing: the call is, in every respect (what it returns or
  throws, the callback it leaves with the connection, the state it leaves), the call
  with an explicit no-op hook in that place. What the session does to the engine and
  reports to its callback, up to its end, is the same whatever the two hook arguments
  are, so a value that cannot be called makes no run fail.
\<close>

theorem non_callable_hooks_are_noops:
  "debug env E data q (Val v) afterEach skipStages cb w =
     debug env E data q (Fn (\<lambda>queryPart index s. s)) afterEach skipStages cb w
   \<and> debug env E data q beforeEach (Val v) skipStages cb w =
     debug env E data q beforeEach (Fn (\<lambda>results index s. s)) skipStages cb w
   \<and> fst (answered E g (debug env E data q (Val v) (Val v') skipStages cb w)) =
     fst (answered E g (debug env E data q beforeEach afterEach skipStages cb w))"
proof -
  have "fst (answered E g (debug env E data q (Val v) (Val v') skipStages cb w)) =
     fst (answered E g (debug env E data q beforeEach afterEach skipStages cb w))"
    by (cases w) (simp add: debug_sys_hooks[where b = "Val v" and a = "Val v'"
          and b' = beforeEach and a' = afterEach])
  moreover have "debug env E data q (Val v) afterEach skipStages cb w =
     debug env E data q (Fn (\<lambda>queryPart index s. s)) afterEach skipStages cb w"
    by (simp add: debug_def debug_checked_def split: arg.splits option.splits)
  moreover have "debug env E data q beforeEach (Val v) skipStages cb w =
     debug env E data q beforeEach (Fn (\<lambda>results index s. s)) skipStages cb w"
    by (simp add: debug_def debug_checked_def split: arg.splits option.splits)
  ultimately show ?thesis
    by (intro conjI)
qed

text \<open>
  Claim C10. Given a completion callback that is not a function, \<open>stages\<close>, \<open>exec\<close> and
  \<open>log\<close> do not throw, and nothing is delivered: the caller's state is, when the session
  is over, what it was before the call, whatever the engine answers. The session itself
  is the one a function callback gets, event for event; when the arguments are valid and
  every step succeeds it is the whole session: the connection, the seeding, then for each
  sub-pipeline the \<open>beforeEach\<close> hook, the submission and the \<open>afterEach\<close> hook, then the
  drop of the database, the close of the connection and the internal completion call. For
  \<open>log\<close> the callback is what remains after the optional \<open>options\<close> argument is resolved, so
  a function in the \<open>options\<close> place with no fourth argument is the callback and is not
  covered here.
\<close>

theorem non_function_callback_is_discarded:
  assumes opts: "\<not> (typeof options = TFunction \<and> v = JUndefined)"
  shows "(\<forall>e w'. stages env E data q (Val v) (y, u) \<noteq> Threw e w')
       \<and> (\<forall>e w'. exec env E data q (Val v) (y, u) \<noteq> Threw e w')
       \<and> (\<forall>e w'. log env E data q options (Val v) (y, u) \<noteq> Threw e w')
       \<and> snd (snd (answered E g (stages env E data q (Val v) (y, u)))) = u
       \<and> snd (snd (answered E g (exec env E data q (Val v) (y, u)))) = u
       \<and> snd (snd (answered E g (log env E data q options (Val v) (y, u)))) = u
       \<and> events_since (y, u) (answered E g (stages env E data q (Val v) (y, u))) =
           events_since (y, u) (answered E g (stages env E data q (Fn f1) (y, u)))
       \<and> events_since (y, u) (answered E g (exec env E data q (Val v) (y, u))) =
           events_since (y, u) (answered E g (exec env E data q (Fn f2) (y, u)))
       \<and> events_since (y, u) (answered E g (log env E data q options (Val v) (y, u))) =
           events_since (y, u) (answered E g (log env E data q options (Fn f3) (y, u)))
       \<and> (check_data data = Some docs \<and> check_query q = Some stgs
            \<and> on_connect E (fst (buildConnectionUrl env y)) = None \<and> on_insert E docs = None
            \<and> (\<forall>(i, p) \<in> set (enumerate 0 (partitionQuery stgs (doSkipStages g))).
                  on_aggregate E i p = Inr (r i))
            \<and> on_dropDatabase E (dropped (trace y)) = None \<longrightarrow>
          events_since (y, u) (answered E g (stages env E data q (Val v) (y, u))) =
            Connect (fst (buildConnectionUrl env y)) # Insert docs
              # concat (map (\<lambda>(i, p). [BeforeEach p i, Aggregate p, AfterEach (r i) i])
                          (enumerate 0 (partitionQuery stgs (doSkipStages g))))
              @ [DropDatabase, Close, Callback None]
          \<and> events_since (y, u) (answered E g (exec env E data q (Val v) (y, u))) =
            Connect (fst (buildConnectionUrl env y)) # Insert docs
              # concat (map (\<lambda>(i, p). [BeforeEach p i, Aggregate p, AfterEach (r i) i])
                          (enumerate 0 (partitionQuery stgs (doSkipStages g))))
              @ [DropDatabase, Close, Callback None]
          \<and> events_since (y, u) (answered E g (log env E data q options (Val v) (y, u))) =
            Connect (fst (buildConnectionUrl env y)) # Insert docs
              # concat (map (\<lambda>(i, p). [BeforeEach p i, Aggregate p, AfterEach (r i) i])
                          (enumerate 0 (partitionQuery stgs (doSkipStages g))))
              @ [DropDatabase, Close, Callback None])"
proof -
  have success: "session_events env E data q (doSkipStages g) y =
            Connect (fst (buildConnectionUrl env y)) # Insert docs
              # concat (map (\<lambda>(i, p). [BeforeEach p i, Aggregate p, AfterEach (r i) i])
                          (enumerate 0 (partitionQuery stgs (doSkipStages g))))
              @ [DropDatabase, Close, Callback None]"
    if "check_data data = Some docs \<and> check_query q = Some stgs
            \<and> on_connect E (fst (buildConnectionUrl env y)) = None \<and> on_insert E docs = None
            \<and> (\<forall>(i, p) \<in> set (enumerate 0 (partitionQuery stgs (doSkipStages g))).
                  on_aggregate E i p = Inr (r i))
            \<and> on_dropDatabase E (dropped (trace y)) = None"
    using that by (intro session_events_ok) simp_all
  show ?thesis
    unfolding stages_events exec_events log_events
    by (simp only: stages_not_thrown exec_not_thrown log_not_thrown stages_discards
        exec_discards log_discards[OF opts] not_False_eq_True simp_thms)
      (rule impI, erule success)
qed

theorem non_function_callback_is_discarded_witness:
  "\<not> (typeof (Val (JObj [(''showQuery'', JBool True)]) :: (err option \<Rightarrow> unit \<Rightarrow> nat \<Rightarrow> nat) arg) = TFunction
        \<and> JNull = JUndefined)
   \<and> check_data data0 = Some [JObj [(''n'', JNum 1)], JObj [(''n'', JNum 2)]]
   \<and> check_query query0 = Some [stage_match, stage_limit]
   \<and> on_connect engine_ok (fst (buildConnectionUrl env0 sys0)) = None
   \<and> on_insert engine_ok [JObj [(''n'', JNum 1)], JObj [(''n'', JNum 2)]] = None
   \<and> on_aggregate engine_ok 0 [stage_match] = Inr (answer 0)
   \<and> on_aggregate engine_ok 1 [stage_match, stage_limit] = Inr (answer 1)
   \<and> on_dropDatabase engine_ok (dropped (trace sys0)) = None
   \<and> events_since (sys0, 0 :: nat)
         (answered engine_ok sys0 (stages env0 engine_ok data0 query0 (Val JNull) (sys0, 0 :: nat))) =
       [Connect ''mongodb://localhost:27017/mongo_aggregation_debugger_7_1000'',
        Insert [JObj [(''n'', JNum 1)], JObj [(''n'', JNum 2)]],
        BeforeEach [stage_match] 0, Aggregate [stage_match], AfterEach (answer 0) 0,
        BeforeEach [stage_match, stage_limit] 1, Aggregate [stage_match, stage_limit],
        AfterEach (answer 1) 1,
        DropDatabase, Close, Callback None]
   \<and> events_since (sys0, 0 :: nat)
         (answered engine_ok sys0 (log env0 engine_ok data0 query0
            (Val (JObj [(''showQuery'', JBool True)])) (Val JNull) (sys0, 0 :: nat))) =
       [Connect ''mongodb://localhost:27017/mongo_aggregation_debugger_7_1000'',
        Insert [JObj [(''n'', JNum 1)], JObj [(''n'', JNum 2)]],
        BeforeEach [stage_match] 0, Aggregate [stage_match], AfterEach (answer 0) 0,
        BeforeEach [stage_match, stage_limit] 1, Aggregate [stage_match, stage_limit],
        AfterEach (answer 1) 1,
        DropDatabase, Close, Callback None]
   \<and> snd (snd (answered engine_ok sys0
         (stages env0 engine_ok data0 query0 (Val JNull) (sys0, 0 :: nat)))) = 0
   \<and> snd (snd (answered engine_ok sys0
         (exec env0 engine_ok data0 query0 (Val JNull) (sys0, 0 :: nat)))) = 0
   \<and> snd (snd (answered engine_ok sys0
         (log env0 engine_ok data0 query0 (Val (JObj [(''showQuery'', JBool True)])) (Val JNull)
            (sys0, 0 :: nat)))) = 0"
proof -
  have opts: "\<not> (typeof (Val (JObj [(''showQuery'', JBool True)]) :: (err option \<Rightarrow> unit \<Rightarrow> nat \<Rightarrow> nat) arg) = TFunction
        \<and> JNull = JUndefined)"
    by simp
  have conn: "on_connect engine_ok (fst (buildConnectionUrl env0 sys0)) = None"
    by (simp add: engine_ok_def)
  have seed: "on_insert engine_ok [JObj [(''n'', JNum 1)], JObj [(''n'', JNum 2)]] = None"
    by (simp add: engine_ok_def)
  have run0: "on_aggregate engine_ok 0 [stage_match] = Inr (answer 0)"
    by (simp add: engine_ok_def)
  have run1: "on_aggregate engine_ok 1 [stage_match, stage_limit] = Inr (answer 1)"
    by (simp add: engine_ok_def)
  have drop_ok: "on_dropDatabase engine_ok (dropped (trace sys0)) = None"
    by (simp add: engine_ok_def)
  have parts: "enumerate 0 (partitionQuery [stage_match, stage_limit] (doSkipStages sys0)) =
      [(0, [stage_match]), (1, [stage_match, stage_limit])]"
    by (simp add: sys0_def partitionQuery_def)
  note inst = non_function_callback_is_discarded[OF opts, where env = env0
      and E = engine_ok and data = data0 and q = query0 and y = sys0 and g = sys0
      and u = "0 :: nat" and r = answer
      and docs = "[JObj [(''n'', JNum 1)], JObj [(''n'', JNum 2)]]"
      and stgs = "[stage_match, stage_limit]"
      and ?f1.0 = count_delivery and ?f2.0 = count_delivery and ?f3.0 = count_delivery]
  have succ: "check_data data0 = Some [JObj [(''n'', JNum 1)], JObj [(''n'', JNum 2)]]
      \<and> check_query query0 = Some [stage_match, stage_limit]
      \<and> on_connect engine_ok (fst (buildConnectionUrl env0 sys0)) = None
      \<and> on_insert engine_ok [JObj [(''n'', JNum 1)], JObj [(''n'', JNum 2)]] = None
      \<and> (\<forall>(i, p) \<in> set (enumerate 0 (partitionQuery [stage_match, stage_limit] (doSkipStages sys0))).
            on_aggregate engine_ok i p = Inr (answer i))
      \<and> on_dropDatabase engine_ok (dropped (trace sys0)) = None"
    using data0_ok query0_ok by (simp add: engine_ok_def)
  have trace: "Connect (fst (buildConnectionUrl env0 sys0))
      # Insert [JObj [(''n'', JNum 1)], JObj [(''n'', JNum 2)]]
      # concat (map (\<lambda>(i, p). [BeforeEach p i, Aggregate p, AfterEach (answer i) i])
                  (enumerate 0 (partitionQuery [stage_match, stage_limit] (doSkipStages sys0))))
      @ [DropDatabase, Close, Callback None] =
      [Connect ''mongodb://localhost:27017/mongo_aggregation_debugger_7_1000'',
        Insert [JObj [(''n'', JNum 1)], JObj [(''n'', JNum 2)]],
        BeforeEach [stage_match] 0, Aggregate [stage_match], AfterEach (answer 0) 0,
        BeforeEach [stage_match, stage_limit] 1, Aggregate [stage_match, stage_limit],
        AfterEach (answer 1) 1,
        DropDatabase, Close, Callback None]"
    by (simp add: parts url_sys0)
  note full = inst[THEN conjunct2, THEN conjunct2, THEN conjunct2, THEN conjunct2,
      THEN conjunct2, THEN conjunct2, THEN conjunct2, THEN conjunct2, THEN conjunct2,
      rule_format, OF succ, unfolded trace]
  note kept = inst[THEN conjunct2, THEN conjunct2, THEN conjunct2]
  show ?thesis
    by (intro conjI opts data0_ok query0_ok conn seed run0 run1 drop_ok
        full[THEN conjunct1] full[THEN conjunct2, THEN conjunct2]
        kept[THEN conjunct1] kept[THEN conjunct2, THEN conjunct1]
        kept[THEN conjunct2, THEN conjunct2, THEN conjunct1])
qed

end
